theory Spec2Isabelle
  imports Complex_Main "HOL-Library.Monad_Syntax" "HOL-Library.Word"
begin

section \<open>Boid simulation (src/main.c): binary32 arithmetic\<close>

text \<open>
  The program computes with C \<^verbatim>\<open>float\<close>s, which are IEEE 754 binary32 numbers on the
  platforms raylib supports. A \<open>float\<close> is a finite value, an infinity or NaN. Every
  arithmetic operation is the exact real operation followed by rounding to nearest, ties to
  even, to 24 significant bits with exponents from -126 (gradual underflow: the spacing never
  drops below \<open>2 powi (- 149)\<close>) and with overflow to an infinity beyond \<open>FLT_MAX\<close>; each
  operation is rounded on its own (no fused multiply-add, no excess precision), as on x86-64.
  Two simplifications: the two zeros are one value \<open>Fin 0\<close> (their sign is visible only in a
  division by zero, which is a separate outcome here), and there is one NaN.
  The finite values a C float can hold are the fixed points of the rounding (\<open>is_float\<close>);
  \<open>Fin x\<close> for any other real \<open>x\<close> is not a value of the program.
\<close>

datatype float = Fin real | PInf | NInf | NaN

definition FLT_MAX :: real where
  "FLT_MAX = (2 ^ 24 - 1) * 2 ^ 104"

text \<open>The smallest positive normal float, and the smallest positive float (a subnormal).\<close>

definition FLT_MIN :: real where
  "FLT_MIN = 2 powi (- 126)"

definition FLT_TRUE_MIN :: real where
  "FLT_TRUE_MIN = 2 powi (- 149)"

text \<open>Rounding a real to the nearest integer, ties to even.\<close>

definition rne :: "real \<Rightarrow> int" where
  "rne x = (let f = \<lfloor>x\<rfloor>; d = x - real_of_int f in
            if d < 1 / 2 then f else if 1 / 2 < d then f + 1 else if even f then f else f + 1)"

text \<open>
  The binary exponent of the binade of \<open>x\<close> (at least -126, where the subnormal numbers
  live), the spacing of the floats in that binade, and the rounding of a real to that grid.
\<close>

definition expo :: "real \<Rightarrow> int" where
  "expo x = (if x = 0 then - 126 else max (- 126) \<lfloor>log 2 \<bar>x\<bar>\<rfloor>)"

definition ulp :: "real \<Rightarrow> real" where
  "ulp x = 2 powi (expo x - 23)"

definition rounded :: "real \<Rightarrow> real" where
  "rounded x = real_of_int (rne (x / ulp x)) * ulp x"

definition clip :: "real \<Rightarrow> float" where
  "clip y = (if FLT_MAX < y then PInf else if y < - FLT_MAX then NInf else Fin y)"

definition rnd :: "real \<Rightarrow> float" where
  "rnd x = clip (rounded x)"

definition is_float :: "float \<Rightarrow> bool" where
  "is_float a = (case a of Fin x \<Rightarrow> rnd x = Fin x | _ \<Rightarrow> True)"

text \<open>The operations \<^verbatim>\<open>-a\<close>, \<^verbatim>\<open>a + b\<close>, \<^verbatim>\<open>a - b\<close>, \<^verbatim>\<open>a * b\<close>.\<close>

fun fneg :: "float \<Rightarrow> float" where
  "fneg (Fin x) = Fin (- x)"
| "fneg PInf = NInf"
| "fneg NInf = PInf"
| "fneg NaN = NaN"

fun fadd :: "float \<Rightarrow> float \<Rightarrow> float" where
  "fadd (Fin x) (Fin y) = rnd (x + y)"
| "fadd (Fin x) PInf = PInf"
| "fadd (Fin x) NInf = NInf"
| "fadd PInf (Fin y) = PInf"
| "fadd PInf PInf = PInf"
| "fadd PInf NInf = NaN"
| "fadd NInf (Fin y) = NInf"
| "fadd NInf PInf = NaN"
| "fadd NInf NInf = NInf"
| "fadd NaN b = NaN"
| "fadd a NaN = NaN"

definition fsub :: "float \<Rightarrow> float \<Rightarrow> float" where
  "fsub a b = fadd a (fneg b)"

fun fmul :: "float \<Rightarrow> float \<Rightarrow> float" where
  "fmul (Fin x) (Fin y) = rnd (x * y)"
| "fmul (Fin x) PInf = (if x = 0 then NaN else if 0 < x then PInf else NInf)"
| "fmul (Fin x) NInf = (if x = 0 then NaN else if 0 < x then NInf else PInf)"
| "fmul PInf (Fin y) = (if y = 0 then NaN else if 0 < y then PInf else NInf)"
| "fmul NInf (Fin y) = (if y = 0 then NaN else if 0 < y then NInf else PInf)"
| "fmul PInf PInf = PInf"
| "fmul PInf NInf = NInf"
| "fmul NInf PInf = NInf"
| "fmul NInf NInf = PInf"
| "fmul NaN b = NaN"
| "fmul a NaN = NaN"

text \<open>
  The quotient \<^verbatim>\<open>a / b\<close> for a divisor that is not zero. A division whose divisor may be
  zero is the checked operation \<open>fdiv\<close>: dividing by zero is the value \<open>None\<close>, so that
  every function which divides by a computed value returns an option, and "no division by zero
  is reachable" is the statement that \<open>None\<close> is never returned. (In C a float division by
  zero does not trap; it yields an infinity or NaN.)
\<close>

fun fquot :: "float \<Rightarrow> float \<Rightarrow> float" where
  "fquot (Fin x) (Fin y) = (if y = 0 then NaN else rnd (x / y))"
| "fquot (Fin x) PInf = Fin 0"
| "fquot (Fin x) NInf = Fin 0"
| "fquot PInf (Fin y) = (if y = 0 then NaN else if 0 < y then PInf else NInf)"
| "fquot NInf (Fin y) = (if y = 0 then NaN else if 0 < y then NInf else PInf)"
| "fquot PInf PInf = NaN"
| "fquot PInf NInf = NaN"
| "fquot NInf PInf = NaN"
| "fquot NInf NInf = NaN"
| "fquot NaN b = NaN"
| "fquot a NaN = NaN"

definition fdiv :: "float \<Rightarrow> float \<Rightarrow> float option" where
  "fdiv a b = (if b = Fin 0 then None else Some (fquot a b))"

text \<open>\<^verbatim>\<open>sqrtf\<close> (correctly rounded), and the comparison \<^verbatim>\<open>a < b\<close>, false on NaN.\<close>

fun fsqrt :: "float \<Rightarrow> float" where
  "fsqrt (Fin x) = (if x < 0 then NaN else rnd (sqrt x))"
| "fsqrt PInf = PInf"
| "fsqrt NInf = NaN"
| "fsqrt NaN = NaN"

fun flt :: "float \<Rightarrow> float \<Rightarrow> bool" where
  "flt (Fin x) (Fin y) = (x < y)"
| "flt (Fin x) PInf = True"
| "flt NInf (Fin y) = True"
| "flt NInf PInf = True"
| "flt a b = False"

text \<open>
  The conversions. An \<^verbatim>\<open>int\<close> operand of a float operation is converted by rounding.
  \<^verbatim>\<open>(int)f\<close> truncates toward zero when the result fits in 32 bits; otherwise (also for an
  infinity or NaN) the behaviour is undefined in C, and the value is the one x86-64 produces,
  \<^verbatim>\<open>INT_MIN\<close>.
\<close>

definition float_of_int :: "int \<Rightarrow> float" where
  "float_of_int n = rnd (real_of_int n)"

definition float_to_int :: "float \<Rightarrow> int" where
  "float_to_int a =
     (case a of
        Fin r \<Rightarrow> if - 2147483649 < r \<and> r < 2147483648
                 then (if 0 \<le> r then \<lfloor>r\<rfloor> else \<lceil>r\<rceil>)
                 else - 2147483648
      | _ \<Rightarrow> - 2147483648)"


section \<open>Data model\<close>

text \<open>
  Array indices and element counts (never negative in the program) are natural numbers; grid
  coordinates, which are negative before clamping, are integers.
  Four names of the source are taken by HOL or by a record field here and are changed: the
  limit \<open>max\<close> is \<open>maxv\<close>, a loop bound \<open>count\<close> is \<open>cnt\<close>, the counter \<open>total\<close> is
  \<open>total'\<close>, and the parameter \<open>maxSpeed\<close> of \<^verbatim>\<open>PhysicsSystem\<close> is \<open>maxSpeed'\<close>.
\<close>

definition SCREEN_WIDTH :: int where "SCREEN_WIDTH = 2560"
definition SCREEN_HEIGHT :: int where "SCREEN_HEIGHT = 1440"
definition CELL_SIZE :: int where "CELL_SIZE = 50"
definition GRID_WIDTH :: int where "GRID_WIDTH = SCREEN_WIDTH div CELL_SIZE + 1"
definition GRID_HEIGHT :: int where "GRID_HEIGHT = SCREEN_HEIGHT div CELL_SIZE + 1"
definition MAX_ENTITIES_PER_CELL :: nat where "MAX_ENTITIES_PER_CELL = 100"
definition MAX_ENTITIES :: nat where "MAX_ENTITIES = 8000"

text \<open>raylib's \<^verbatim>\<open>Vector2\<close> (fields x, y) and \<^verbatim>\<open>Color\<close> (fields r, g, b, a).\<close>

record Vector2 =
  vx :: float
  vy :: float

record Color =
  col_r :: "8 word"
  col_g :: "8 word"
  col_b :: "8 word"
  col_a :: "8 word"

text \<open>A grid cell: the array \<^verbatim>\<open>entities[MAX_ENTITIES_PER_CELL]\<close> and the fill count.\<close>

record GridCell =
  cell_entities :: "nat \<Rightarrow> nat"
  cell_count :: nat

record SpatialGrid =
  cells :: "int \<Rightarrow> int \<Rightarrow> GridCell"

record BoidParams =
  perceptionRadius :: float
  separationRadius :: float
  maxSpeed :: float
  maxForce :: float
  separationWeight :: float
  alignmentWeight :: float
  cohesionWeight :: float

text \<open>The initial parameters; the literal \<^verbatim>\<open>0.7f\<close> is the float nearest to 7/10.\<close>

definition boidParams :: BoidParams where
  "boidParams = \<lparr> perceptionRadius = Fin 20, separationRadius = Fin 10, maxSpeed = Fin 5,
     maxForce = rnd (7 / 10), separationWeight = Fin 3, alignmentWeight = Fin 1,
     cohesionWeight = Fin (1 / 2) \<rparr>"

text \<open>The global struct-of-arrays store with its counter \<^verbatim>\<open>entityCount\<close>.\<close>

record Store =
  entities :: "nat \<Rightarrow> bool"
  positions :: "nat \<Rightarrow> Vector2"
  velocities :: "nat \<Rightarrow> Vector2"
  accelerations :: "nat \<Rightarrow> Vector2"
  colors :: "nat \<Rightarrow> Color"
  entityCount :: nat

section \<open>Vector primitives\<close>

text \<open>A loop whose body may fail: the first failure ends it.\<close>

fun for_each :: "('a \<Rightarrow> 's \<Rightarrow> 's option) \<Rightarrow> 'a list \<Rightarrow> 's \<Rightarrow> 's option" where
  "for_each f [] s = Some s"
| "for_each f (a # as) s = (case f a s of None \<Rightarrow> None | Some s' \<Rightarrow> for_each f as s')"

text \<open>From raymath.h.\<close>

definition Vector2Add :: "Vector2 \<Rightarrow> Vector2 \<Rightarrow> Vector2" where
  "Vector2Add v1 v2 = \<lparr> vx = fadd (vx v1) (vx v2), vy = fadd (vy v1) (vy v2) \<rparr>"

definition Vector2Subtract :: "Vector2 \<Rightarrow> Vector2 \<Rightarrow> Vector2" where
  "Vector2Subtract v1 v2 = \<lparr> vx = fsub (vx v1) (vx v2), vy = fsub (vy v1) (vy v2) \<rparr>"

definition Vector2Distance :: "Vector2 \<Rightarrow> Vector2 \<Rightarrow> float" where
  "Vector2Distance v1 v2 =
     fsqrt (fadd (fmul (fsub (vx v1) (vx v2)) (fsub (vx v1) (vx v2)))
                 (fmul (fsub (vy v1) (vy v2)) (fsub (vy v1) (vy v2))))"

definition Vector2Limit :: "Vector2 \<Rightarrow> float \<Rightarrow> Vector2 option" where
  "Vector2Limit v maxv =
     (let magSq = fadd (fmul (vx v) (vx v)) (fmul (vy v) (vy v)) in
      if flt (fmul maxv maxv) magSq then
        (let mag = fsqrt magSq in
         do { qx \<leftarrow> fdiv (vx v) mag;
              qy \<leftarrow> fdiv (vy v) mag;
              Some \<lparr> vx = fmul qx maxv, vy = fmul qy maxv \<rparr> })
      else Some v)"

definition Vector2SetMag :: "Vector2 \<Rightarrow> float \<Rightarrow> Vector2 option" where
  "Vector2SetMag v mag =
     (let currentMag = fsqrt (fadd (fmul (vx v) (vx v)) (fmul (vy v) (vy v))) in
      if flt (Fin 0) currentMag then
        do { qx \<leftarrow> fdiv (vx v) currentMag;
             qy \<leftarrow> fdiv (vy v) currentMag;
             Some \<lparr> vx = fmul qx mag, vy = fmul qy mag \<rparr> }
      else Some v)"

section \<open>Spatial grid\<close>

definition ClearSpatialGrid :: "SpatialGrid \<Rightarrow> SpatialGrid" where
  "ClearSpatialGrid grid =
     \<lparr> cells = (\<lambda>x y. \<lparr> cell_entities = (\<lambda>k. 0), cell_count = 0 \<rparr>) \<rparr>"

text \<open>The divisor \<^verbatim>\<open>CELL_SIZE\<close> is the constant 50, converted to float.\<close>

definition AddToSpatialGrid :: "SpatialGrid \<Rightarrow> nat \<Rightarrow> Vector2 \<Rightarrow> SpatialGrid" where
  "AddToSpatialGrid grid entityId pos =
     (let gridX = float_to_int (fquot (vx pos) (float_of_int CELL_SIZE));
          gridY = float_to_int (fquot (vy pos) (float_of_int CELL_SIZE));
          gridX = (if gridX < 0 then 0 else gridX);
          gridX = (if gridX \<ge> GRID_WIDTH then GRID_WIDTH - 1 else gridX);
          gridY = (if gridY < 0 then 0 else gridY);
          gridY = (if gridY \<ge> GRID_HEIGHT then GRID_HEIGHT - 1 else gridY);
          cell = cells grid gridX gridY
      in if cell_count cell < MAX_ENTITIES_PER_CELL then
           grid \<lparr> cells := (cells grid) (gridX := (cells grid gridX) (gridY :=
             cell \<lparr> cell_entities := (cell_entities cell) (cell_count cell := entityId),
                    cell_count := cell_count cell + 1 \<rparr>)) \<rparr>
         else grid)"

text \<open>
  The innermost loop of \<^verbatim>\<open>QuerySpatialGrid\<close>: the list \<open>out\<close> is
  \<^verbatim>\<open>outEntities[0 .. *outCount)\<close>.
\<close>

definition collect_cell :: "GridCell \<Rightarrow> int \<Rightarrow> nat list \<Rightarrow> nat list" where
  "collect_cell cell maxResults out =
     fold (\<lambda>i out. if int (length out) < maxResults then out @ [cell_entities cell i] else out)
       [0 ..< cell_count cell] out"

definition QuerySpatialGrid :: "SpatialGrid \<Rightarrow> Vector2 \<Rightarrow> float \<Rightarrow> int \<Rightarrow> nat list" where
  "QuerySpatialGrid grid pos radius maxResults =
     (let minX = float_to_int (fquot (fsub (vx pos) radius) (float_of_int CELL_SIZE));
          maxX = float_to_int (fquot (fadd (vx pos) radius) (float_of_int CELL_SIZE));
          minY = float_to_int (fquot (fsub (vy pos) radius) (float_of_int CELL_SIZE));
          maxY = float_to_int (fquot (fadd (vy pos) radius) (float_of_int CELL_SIZE));
          minX = (if minX < 0 then 0 else minX);
          maxX = (if maxX \<ge> GRID_WIDTH then GRID_WIDTH - 1 else maxX);
          minY = (if minY < 0 then 0 else minY);
          maxY = (if maxY \<ge> GRID_HEIGHT then GRID_HEIGHT - 1 else maxY)
      in fold (\<lambda>y out.
           fold (\<lambda>x out. collect_cell (cells grid x y) maxResults out) [minX .. maxX] out)
           [minY .. maxY] [])"

section \<open>Entity management\<close>

text \<open>\<^verbatim>\<open>CreateEntity\<close> returns the new id, or -1, together with the updated store.\<close>

definition CreateEntity :: "Store \<Rightarrow> Vector2 \<Rightarrow> Vector2 \<Rightarrow> Color \<Rightarrow> int \<times> Store" where
  "CreateEntity st position velocity color =
     (if entityCount st \<ge> MAX_ENTITIES then (- 1, st)
      else
        (let ident = entityCount st in
         (int ident,
          st \<lparr> entities := (entities st) (ident := True),
               positions := (positions st) (ident := position),
               velocities := (velocities st) (ident := velocity),
               accelerations := (accelerations st) (ident := \<lparr> vx = Fin 0, vy = Fin 0 \<rparr>),
               colors := (colors st) (ident := color),
               entityCount := entityCount st + 1 \<rparr>)))"

section \<open>Systems\<close>

definition SpatialGridUpdateSystem ::
  "SpatialGrid \<Rightarrow> (nat \<Rightarrow> Vector2) \<Rightarrow> (nat \<Rightarrow> bool) \<Rightarrow> nat \<Rightarrow> SpatialGrid" where
  "SpatialGridUpdateSystem grid pos ent cnt =
     fold (\<lambda>i g. if \<not> ent i then g else AddToSpatialGrid g i (pos i))
       [0 ..< cnt] (ClearSpatialGrid grid)"

text \<open>The candidate loops of the three force systems; the state is \<open>(steering, total')\<close>.\<close>

definition separation_candidate ::
  "(nat \<Rightarrow> Vector2) \<Rightarrow> (nat \<Rightarrow> bool) \<Rightarrow> BoidParams \<Rightarrow> nat \<Rightarrow> nat \<Rightarrow> Vector2 \<times> nat
     \<Rightarrow> (Vector2 \<times> nat) option" where
  "separation_candidate pos ent params i j st =
     (case st of (steering, total') \<Rightarrow>
      if i = j \<or> \<not> ent j then Some (steering, total')
      else
        (let dist = Vector2Distance (pos i) (pos j) in
         if flt dist (separationRadius params) \<and> flt (Fin 0) dist then
           (let diff = Vector2Subtract (pos i) (pos j) in
            do { dx \<leftarrow> fdiv (vx diff) dist;
                 dy \<leftarrow> fdiv (vy diff) dist;
                 Some (Vector2Add steering \<lparr> vx = dx, vy = dy \<rparr>, total' + 1) })
         else Some (steering, total')))"

definition alignment_candidate ::
  "(nat \<Rightarrow> Vector2) \<Rightarrow> (nat \<Rightarrow> Vector2) \<Rightarrow> (nat \<Rightarrow> bool) \<Rightarrow> BoidParams \<Rightarrow> nat \<Rightarrow> nat
     \<Rightarrow> Vector2 \<times> nat \<Rightarrow> (Vector2 \<times> nat) option" where
  "alignment_candidate pos vel ent params i j st =
     (case st of (steering, total') \<Rightarrow>
      if i = j \<or> \<not> ent j then Some (steering, total')
      else
        (let dist = Vector2Distance (pos i) (pos j) in
         if flt dist (perceptionRadius params) then
           Some (Vector2Add steering (vel j), total' + 1)
         else Some (steering, total')))"

definition cohesion_candidate ::
  "(nat \<Rightarrow> Vector2) \<Rightarrow> (nat \<Rightarrow> bool) \<Rightarrow> BoidParams \<Rightarrow> nat \<Rightarrow> nat \<Rightarrow> Vector2 \<times> nat
     \<Rightarrow> (Vector2 \<times> nat) option" where
  "cohesion_candidate pos ent params i j st =
     (case st of (steering, total') \<Rightarrow>
      if i = j \<or> \<not> ent j then Some (steering, total')
      else
        (let dist = Vector2Distance (pos i) (pos j) in
         if flt dist (perceptionRadius params) then
           Some (Vector2Add steering (pos j), total' + 1)
         else Some (steering, total')))"

text \<open>The body of the outer loop of each force system, for agent \<open>i\<close>.\<close>

definition separation_agent ::
  "SpatialGrid \<Rightarrow> (nat \<Rightarrow> Vector2) \<Rightarrow> (nat \<Rightarrow> Vector2) \<Rightarrow> (nat \<Rightarrow> bool) \<Rightarrow> BoidParams
     \<Rightarrow> nat \<Rightarrow> (nat \<Rightarrow> Vector2) \<Rightarrow> (nat \<Rightarrow> Vector2) option" where
  "separation_agent grid pos vel ent params i acc =
     (if \<not> ent i then Some acc
      else
        (let nearbyEntities = QuerySpatialGrid grid (pos i) (separationRadius params)
               (int (MAX_ENTITIES_PER_CELL * 9)) in
         do { (steering, total') \<leftarrow>
                for_each (separation_candidate pos ent params i) nearbyEntities
                  (\<lparr> vx = Fin 0, vy = Fin 0 \<rparr>, 0);
              if total' > 0 then
                do { sx \<leftarrow> fdiv (vx steering) (float_of_int (int total'));
                     sy \<leftarrow> fdiv (vy steering) (float_of_int (int total'));
                     steering \<leftarrow> Vector2SetMag \<lparr> vx = sx, vy = sy \<rparr> (maxSpeed params);
                     steering \<leftarrow> Vector2Limit (Vector2Subtract steering (vel i)) (maxForce params);
                     Some (acc (i := Vector2Add (acc i)
                       \<lparr> vx = fmul (vx steering) (separationWeight params),
                         vy = fmul (vy steering) (separationWeight params) \<rparr>)) }
              else Some acc }))"

definition alignment_agent ::
  "SpatialGrid \<Rightarrow> (nat \<Rightarrow> Vector2) \<Rightarrow> (nat \<Rightarrow> Vector2) \<Rightarrow> (nat \<Rightarrow> bool) \<Rightarrow> BoidParams
     \<Rightarrow> nat \<Rightarrow> (nat \<Rightarrow> Vector2) \<Rightarrow> (nat \<Rightarrow> Vector2) option" where
  "alignment_agent grid pos vel ent params i acc =
     (if \<not> ent i then Some acc
      else
        (let nearbyEntities = QuerySpatialGrid grid (pos i) (perceptionRadius params)
               (int (MAX_ENTITIES_PER_CELL * 9)) in
         do { (steering, total') \<leftarrow>
                for_each (alignment_candidate pos vel ent params i) nearbyEntities
                  (\<lparr> vx = Fin 0, vy = Fin 0 \<rparr>, 0);
              if total' > 0 then
                do { sx \<leftarrow> fdiv (vx steering) (float_of_int (int total'));
                     sy \<leftarrow> fdiv (vy steering) (float_of_int (int total'));
                     steering \<leftarrow> Vector2SetMag \<lparr> vx = sx, vy = sy \<rparr> (maxSpeed params);
                     steering \<leftarrow> Vector2Limit (Vector2Subtract steering (vel i)) (maxForce params);
                     Some (acc (i := Vector2Add (acc i)
                       \<lparr> vx = fmul (vx steering) (alignmentWeight params),
                         vy = fmul (vy steering) (alignmentWeight params) \<rparr>)) }
              else Some acc }))"

definition cohesion_agent ::
  "SpatialGrid \<Rightarrow> (nat \<Rightarrow> Vector2) \<Rightarrow> (nat \<Rightarrow> Vector2) \<Rightarrow> (nat \<Rightarrow> bool) \<Rightarrow> BoidParams
     \<Rightarrow> nat \<Rightarrow> (nat \<Rightarrow> Vector2) \<Rightarrow> (nat \<Rightarrow> Vector2) option" where
  "cohesion_agent grid pos vel ent params i acc =
     (if \<not> ent i then Some acc
      else
        (let nearbyEntities = QuerySpatialGrid grid (pos i) (perceptionRadius params)
               (int (MAX_ENTITIES_PER_CELL * 9)) in
         do { (steering, total') \<leftarrow>
                for_each (cohesion_candidate pos ent params i) nearbyEntities
                  (\<lparr> vx = Fin 0, vy = Fin 0 \<rparr>, 0);
              if total' > 0 then
                do { sx \<leftarrow> fdiv (vx steering) (float_of_int (int total'));
                     sy \<leftarrow> fdiv (vy steering) (float_of_int (int total'));
                     steering \<leftarrow> Vector2SetMag (Vector2Subtract \<lparr> vx = sx, vy = sy \<rparr> (pos i))
                                  (maxSpeed params);
                     steering \<leftarrow> Vector2Limit (Vector2Subtract steering (vel i)) (maxForce params);
                     Some (acc (i := Vector2Add (acc i)
                       \<lparr> vx = fmul (vx steering) (cohesionWeight params),
                         vy = fmul (vy steering) (cohesionWeight params) \<rparr>)) }
              else Some acc }))"

definition BoidSeparationSystem ::
  "SpatialGrid \<Rightarrow> (nat \<Rightarrow> Vector2) \<Rightarrow> (nat \<Rightarrow> Vector2) \<Rightarrow> (nat \<Rightarrow> Vector2) \<Rightarrow> (nat \<Rightarrow> bool)
     \<Rightarrow> nat \<Rightarrow> BoidParams \<Rightarrow> (nat \<Rightarrow> Vector2) option" where
  "BoidSeparationSystem grid pos vel acc ent cnt params =
     for_each (separation_agent grid pos vel ent params) [0 ..< cnt] acc"

definition BoidAlignmentSystem ::
  "SpatialGrid \<Rightarrow> (nat \<Rightarrow> Vector2) \<Rightarrow> (nat \<Rightarrow> Vector2) \<Rightarrow> (nat \<Rightarrow> Vector2) \<Rightarrow> (nat \<Rightarrow> bool)
     \<Rightarrow> nat \<Rightarrow> BoidParams \<Rightarrow> (nat \<Rightarrow> Vector2) option" where
  "BoidAlignmentSystem grid pos vel acc ent cnt params =
     for_each (alignment_agent grid pos vel ent params) [0 ..< cnt] acc"

definition BoidCohesionSystem ::
  "SpatialGrid \<Rightarrow> (nat \<Rightarrow> Vector2) \<Rightarrow> (nat \<Rightarrow> Vector2) \<Rightarrow> (nat \<Rightarrow> Vector2) \<Rightarrow> (nat \<Rightarrow> bool)
     \<Rightarrow> nat \<Rightarrow> BoidParams \<Rightarrow> (nat \<Rightarrow> Vector2) option" where
  "BoidCohesionSystem grid pos vel acc ent cnt params =
     for_each (cohesion_agent grid pos vel ent params) [0 ..< cnt] acc"

definition AccelerationResetSystem ::
  "(nat \<Rightarrow> Vector2) \<Rightarrow> (nat \<Rightarrow> bool) \<Rightarrow> nat \<Rightarrow> (nat \<Rightarrow> Vector2)" where
  "AccelerationResetSystem acc ent cnt =
     fold (\<lambda>i acc. if \<not> ent i then acc else acc (i := \<lparr> vx = Fin 0, vy = Fin 0 \<rparr>)) [0 ..< cnt] acc"

text \<open>\<^verbatim>\<open>PhysicsSystem\<close> updates the pair \<open>(pos, vel)\<close>.\<close>

definition physics_agent ::
  "(nat \<Rightarrow> Vector2) \<Rightarrow> (nat \<Rightarrow> bool) \<Rightarrow> float \<Rightarrow> nat
     \<Rightarrow> (nat \<Rightarrow> Vector2) \<times> (nat \<Rightarrow> Vector2) \<Rightarrow> ((nat \<Rightarrow> Vector2) \<times> (nat \<Rightarrow> Vector2)) option" where
  "physics_agent acc ent maxSpeed' i st =
     (case st of (pos, vel) \<Rightarrow>
      if \<not> ent i then Some (pos, vel)
      else
        do { v \<leftarrow> Vector2Limit (Vector2Add (vel i) (acc i)) maxSpeed';
             Some (pos (i := Vector2Add (pos i) v), vel (i := v)) })"

definition PhysicsSystem ::
  "(nat \<Rightarrow> Vector2) \<Rightarrow> (nat \<Rightarrow> Vector2) \<Rightarrow> (nat \<Rightarrow> Vector2) \<Rightarrow> (nat \<Rightarrow> bool) \<Rightarrow> nat \<Rightarrow> float
     \<Rightarrow> ((nat \<Rightarrow> Vector2) \<times> (nat \<Rightarrow> Vector2)) option" where
  "PhysicsSystem pos vel acc ent cnt maxSpeed' =
     for_each (physics_agent acc ent maxSpeed') [0 ..< cnt] (pos, vel)"

text \<open>The \<^verbatim>\<open>int\<close> extents are converted to float in the comparisons and assignments.\<close>

definition wrap_agent :: "(nat \<Rightarrow> bool) \<Rightarrow> int \<Rightarrow> int \<Rightarrow> nat \<Rightarrow> (nat \<Rightarrow> Vector2) \<Rightarrow> (nat \<Rightarrow> Vector2)" where
  "wrap_agent ent width height i pos =
     (if \<not> ent i then pos
      else
        (let p = pos i;
             p = (if flt (vx p) (Fin 0) then p \<lparr> vx := float_of_int width \<rparr> else p);
             p = (if flt (float_of_int width) (vx p) then p \<lparr> vx := Fin 0 \<rparr> else p);
             p = (if flt (vy p) (Fin 0) then p \<lparr> vy := float_of_int height \<rparr> else p);
             p = (if flt (float_of_int height) (vy p) then p \<lparr> vy := Fin 0 \<rparr> else p)
         in pos (i := p)))"

definition WrapAroundSystem ::
  "(nat \<Rightarrow> Vector2) \<Rightarrow> (nat \<Rightarrow> bool) \<Rightarrow> nat \<Rightarrow> int \<Rightarrow> int \<Rightarrow> (nat \<Rightarrow> Vector2)" where
  "WrapAroundSystem pos ent cnt width height = fold (wrap_agent ent width height) [0 ..< cnt] pos"

text \<open>
  One iteration of the main loop, without key handling and drawing: the simulation state is
  the grid and the store.
\<close>

definition tick :: "BoidParams \<Rightarrow> SpatialGrid \<times> Store \<Rightarrow> (SpatialGrid \<times> Store) option" where
  "tick params gs =
     (case gs of (spatialGrid, st) \<Rightarrow>
      (let cnt = entityCount st;
           spatialGrid = SpatialGridUpdateSystem spatialGrid (positions st) (entities st) cnt;
           acc = AccelerationResetSystem (accelerations st) (entities st) cnt
       in do { acc \<leftarrow> BoidSeparationSystem spatialGrid (positions st) (velocities st) acc
                        (entities st) cnt params;
               acc \<leftarrow> BoidAlignmentSystem spatialGrid (positions st) (velocities st) acc
                        (entities st) cnt params;
               acc \<leftarrow> BoidCohesionSystem spatialGrid (positions st) (velocities st) acc
                        (entities st) cnt params;
               (pos, vel) \<leftarrow> PhysicsSystem (positions st) (velocities st) acc (entities st) cnt
                               (maxSpeed params);
               let pos = WrapAroundSystem pos (entities st) cnt SCREEN_WIDTH SCREEN_HEIGHT;
               Some (spatialGrid,
                     st \<lparr> positions := pos, velocities := vel, accelerations := acc \<rparr>) }))"

text \<open>
  The acceleration of agent \<open>i\<close> in the store after one iteration of the main loop, and its
  velocity after \<^verbatim>\<open>PhysicsSystem\<close>.
\<close>

definition tick_acceleration ::
  "BoidParams \<Rightarrow> SpatialGrid \<times> Store \<Rightarrow> nat \<Rightarrow> Vector2 option" where
  "tick_acceleration params gs i =
     (case tick params gs of None \<Rightarrow> None | Some (g, st) \<Rightarrow> Some (accelerations st i))"


section \<open>Closed forms and sample states\<close>



text \<open>
  The value \<^verbatim>\<open>Vector2Limit\<close> returns and the position \<^verbatim>\<open>WrapAroundSystem\<close> leaves,
  as plain functions; the lemmas below show that the embedded code computes them.
\<close>

definition limit_val :: "Vector2 \<Rightarrow> float \<Rightarrow> Vector2" where
  "limit_val v maxv =
     (let magSq = fadd (fmul (vx v) (vx v)) (fmul (vy v) (vy v)) in
      if flt (fmul maxv maxv) magSq
      then \<lparr> vx = fmul (fquot (vx v) (fsqrt magSq)) maxv,
              vy = fmul (fquot (vy v) (fsqrt magSq)) maxv \<rparr>
      else v)"

definition wrap_val :: "int \<Rightarrow> int \<Rightarrow> Vector2 \<Rightarrow> Vector2" where
  "wrap_val width height p =
     \<lparr> vx = (if flt (vx p) (Fin 0) then float_of_int width
             else if flt (float_of_int width) (vx p) then Fin 0 else vx p),
       vy = (if flt (vy p) (Fin 0) then float_of_int height
             else if flt (float_of_int height) (vy p) then Fin 0 else vy p) \<rparr>"

text \<open>
  The same for \<^verbatim>\<open>Vector2SetMag\<close> and for the steering tail shared by the three force
  systems (set magnitude, subtract the velocity, limit, multiply by the weight); the sums a
  force system accumulates over the candidates of agent \<open>i\<close>, whether it adds anything to
  \<open>acc[i]\<close> (the agent is active and \<open>total > 0\<close>), and the vector it then adds.
\<close>

definition setmag_val :: "Vector2 \<Rightarrow> float \<Rightarrow> Vector2" where
  "setmag_val v mag =
     (let currentMag = fsqrt (fadd (fmul (vx v) (vx v)) (fmul (vy v) (vy v))) in
      if flt (Fin 0) currentMag
      then \<lparr> vx = fmul (fquot (vx v) currentMag) mag, vy = fmul (fquot (vy v) currentMag) mag \<rparr>
      else v)"

definition scale :: "Vector2 \<Rightarrow> float \<Rightarrow> Vector2" where
  "scale v w = \<lparr> vx = fmul (vx v) w, vy = fmul (vy v) w \<rparr>"

definition steer_val :: "Vector2 \<Rightarrow> Vector2 \<Rightarrow> float \<Rightarrow> float \<Rightarrow> float \<Rightarrow> Vector2" where
  "steer_val desired v ms mf w =
     scale (limit_val (Vector2Subtract (setmag_val desired ms) v) mf) w"

definition separation_sum ::
  "SpatialGrid \<Rightarrow> (nat \<Rightarrow> Vector2) \<Rightarrow> (nat \<Rightarrow> bool) \<Rightarrow> BoidParams \<Rightarrow> nat \<Rightarrow> (Vector2 \<times> nat) option" where
  "separation_sum grid pos ent params i =
     for_each (separation_candidate pos ent params i)
       (QuerySpatialGrid grid (pos i) (separationRadius params) (int (MAX_ENTITIES_PER_CELL * 9)))
       (\<lparr> vx = Fin 0, vy = Fin 0 \<rparr>, 0)"

definition alignment_sum ::
  "SpatialGrid \<Rightarrow> (nat \<Rightarrow> Vector2) \<Rightarrow> (nat \<Rightarrow> Vector2) \<Rightarrow> (nat \<Rightarrow> bool) \<Rightarrow> BoidParams \<Rightarrow> nat \<Rightarrow> (Vector2 \<times> nat) option" where
  "alignment_sum grid pos vel ent params i =
     for_each (alignment_candidate pos vel ent params i)
       (QuerySpatialGrid grid (pos i) (perceptionRadius params) (int (MAX_ENTITIES_PER_CELL * 9)))
       (\<lparr> vx = Fin 0, vy = Fin 0 \<rparr>, 0)"

definition cohesion_sum ::
  "SpatialGrid \<Rightarrow> (nat \<Rightarrow> Vector2) \<Rightarrow> (nat \<Rightarrow> bool) \<Rightarrow> BoidParams \<Rightarrow> nat \<Rightarrow> (Vector2 \<times> nat) option" where
  "cohesion_sum grid pos ent params i =
     for_each (cohesion_candidate pos ent params i)
       (QuerySpatialGrid grid (pos i) (perceptionRadius params) (int (MAX_ENTITIES_PER_CELL * 9)))
       (\<lparr> vx = Fin 0, vy = Fin 0 \<rparr>, 0)"

definition averaged :: "Vector2 \<Rightarrow> nat \<Rightarrow> Vector2" where
  "averaged s t = \<lparr> vx = fquot (vx s) (float_of_int (int t)), vy = fquot (vy s) (float_of_int (int t)) \<rparr>"

definition separation_adds ::
  "SpatialGrid \<Rightarrow> (nat \<Rightarrow> Vector2) \<Rightarrow> (nat \<Rightarrow> bool) \<Rightarrow> BoidParams \<Rightarrow> nat \<Rightarrow> bool" where
  "separation_adds grid pos ent params i =
     (case separation_sum grid pos ent params i of
        None \<Rightarrow> False | Some (s, t) \<Rightarrow> ent i \<and> t > 0)"

definition alignment_adds ::
  "SpatialGrid \<Rightarrow> (nat \<Rightarrow> Vector2) \<Rightarrow> (nat \<Rightarrow> Vector2) \<Rightarrow> (nat \<Rightarrow> bool) \<Rightarrow> BoidParams \<Rightarrow> nat \<Rightarrow> bool" where
  "alignment_adds grid pos vel ent params i =
     (case alignment_sum grid pos vel ent params i of
        None \<Rightarrow> False | Some (s, t) \<Rightarrow> ent i \<and> t > 0)"

definition cohesion_adds ::
  "SpatialGrid \<Rightarrow> (nat \<Rightarrow> Vector2) \<Rightarrow> (nat \<Rightarrow> bool) \<Rightarrow> BoidParams \<Rightarrow> nat \<Rightarrow> bool" where
  "cohesion_adds grid pos ent params i =
     (case cohesion_sum grid pos ent params i of
        None \<Rightarrow> False | Some (s, t) \<Rightarrow> ent i \<and> t > 0)"

text \<open>
  The steering of agent \<open>i\<close> before the clamp, and the vector added to \<open>acc[i]\<close>: the clamped
  steering times the weight.
\<close>

definition separation_steer ::
  "SpatialGrid \<Rightarrow> (nat \<Rightarrow> Vector2) \<Rightarrow> (nat \<Rightarrow> Vector2) \<Rightarrow> (nat \<Rightarrow> bool) \<Rightarrow> BoidParams \<Rightarrow> nat \<Rightarrow> Vector2" where
  "separation_steer grid pos vel ent params i =
     (case separation_sum grid pos ent params i of
        None \<Rightarrow> \<lparr> vx = Fin 0, vy = Fin 0 \<rparr>
      | Some (s, t) \<Rightarrow> Vector2Subtract (setmag_val (averaged s t) (maxSpeed params)) (vel i))"

definition alignment_steer ::
  "SpatialGrid \<Rightarrow> (nat \<Rightarrow> Vector2) \<Rightarrow> (nat \<Rightarrow> Vector2) \<Rightarrow> (nat \<Rightarrow> bool) \<Rightarrow> BoidParams \<Rightarrow> nat \<Rightarrow> Vector2" where
  "alignment_steer grid pos vel ent params i =
     (case alignment_sum grid pos vel ent params i of
        None \<Rightarrow> \<lparr> vx = Fin 0, vy = Fin 0 \<rparr>
      | Some (s, t) \<Rightarrow> Vector2Subtract (setmag_val (averaged s t) (maxSpeed params)) (vel i))"

definition cohesion_steer ::
  "SpatialGrid \<Rightarrow> (nat \<Rightarrow> Vector2) \<Rightarrow> (nat \<Rightarrow> Vector2) \<Rightarrow> (nat \<Rightarrow> bool) \<Rightarrow> BoidParams \<Rightarrow> nat \<Rightarrow> Vector2" where
  "cohesion_steer grid pos vel ent params i =
     (case cohesion_sum grid pos ent params i of
        None \<Rightarrow> \<lparr> vx = Fin 0, vy = Fin 0 \<rparr>
      | Some (s, t) \<Rightarrow>
          Vector2Subtract (setmag_val (Vector2Subtract (averaged s t) (pos i)) (maxSpeed params))
            (vel i))"

definition separation_force ::
  "SpatialGrid \<Rightarrow> (nat \<Rightarrow> Vector2) \<Rightarrow> (nat \<Rightarrow> Vector2) \<Rightarrow> (nat \<Rightarrow> bool) \<Rightarrow> BoidParams \<Rightarrow> nat \<Rightarrow> Vector2" where
  "separation_force grid pos vel ent params i =
     scale (limit_val (separation_steer grid pos vel ent params i) (maxForce params))
       (separationWeight params)"

definition alignment_force ::
  "SpatialGrid \<Rightarrow> (nat \<Rightarrow> Vector2) \<Rightarrow> (nat \<Rightarrow> Vector2) \<Rightarrow> (nat \<Rightarrow> bool) \<Rightarrow> BoidParams \<Rightarrow> nat \<Rightarrow> Vector2" where
  "alignment_force grid pos vel ent params i =
     scale (limit_val (alignment_steer grid pos vel ent params i) (maxForce params))
       (alignmentWeight params)"

definition cohesion_force ::
  "SpatialGrid \<Rightarrow> (nat \<Rightarrow> Vector2) \<Rightarrow> (nat \<Rightarrow> Vector2) \<Rightarrow> (nat \<Rightarrow> bool) \<Rightarrow> BoidParams \<Rightarrow> nat \<Rightarrow> Vector2" where
  "cohesion_force grid pos vel ent params i =
     scale (limit_val (cohesion_steer grid pos vel ent params i) (maxForce params))
       (cohesionWeight params)"

text \<open>
  The qualifying neighbours of agent \<open>i\<close> for a behaviour of the given radius: the candidates
  returned by the grid query that are not \<open>i\<close> itself, are active, and are closer than the
  radius.
\<close>

definition qualifying ::
  "SpatialGrid \<Rightarrow> (nat \<Rightarrow> Vector2) \<Rightarrow> (nat \<Rightarrow> bool) \<Rightarrow> nat \<Rightarrow> float \<Rightarrow> nat list" where
  "qualifying grid pos ent i radius =
     filter (\<lambda>j. j \<noteq> i \<and> ent j \<and> flt (Vector2Distance (pos i) (pos j)) radius)
       (QuerySpatialGrid grid (pos i) radius (int (MAX_ENTITIES_PER_CELL * 9)))"

text \<open>
  For the grid: the cell \<^verbatim>\<open>AddToSpatialGrid\<close> selects for a position (its clamped
  coordinates), the ids a cell holds (the first \<open>count\<close> entries of its array), the columns
  and rows \<^verbatim>\<open>QuerySpatialGrid\<close> visits, the ids stored in the visited cells in visiting
  order, and the active agents below \<open>cnt\<close> whose position selects a given cell.
\<close>

definition grid_cell_of :: "Vector2 \<Rightarrow> int \<times> int" where
  "grid_cell_of pos =
     (let gridX = float_to_int (fquot (vx pos) (float_of_int CELL_SIZE));
          gridY = float_to_int (fquot (vy pos) (float_of_int CELL_SIZE));
          gridX = (if gridX < 0 then 0 else gridX);
          gridX = (if gridX \<ge> GRID_WIDTH then GRID_WIDTH - 1 else gridX);
          gridY = (if gridY < 0 then 0 else gridY);
          gridY = (if gridY \<ge> GRID_HEIGHT then GRID_HEIGHT - 1 else gridY)
      in (gridX, gridY))"

definition cell_ids :: "GridCell \<Rightarrow> nat list" where
  "cell_ids cell = map (cell_entities cell) [0 ..< cell_count cell]"

definition query_xs :: "Vector2 \<Rightarrow> float \<Rightarrow> int list" where
  "query_xs pos radius =
     (let minX = float_to_int (fquot (fsub (vx pos) radius) (float_of_int CELL_SIZE));
          maxX = float_to_int (fquot (fadd (vx pos) radius) (float_of_int CELL_SIZE));
          minX = (if minX < 0 then 0 else minX);
          maxX = (if maxX \<ge> GRID_WIDTH then GRID_WIDTH - 1 else maxX)
      in [minX .. maxX])"

definition query_ys :: "Vector2 \<Rightarrow> float \<Rightarrow> int list" where
  "query_ys pos radius =
     (let minY = float_to_int (fquot (fsub (vy pos) radius) (float_of_int CELL_SIZE));
          maxY = float_to_int (fquot (fadd (vy pos) radius) (float_of_int CELL_SIZE));
          minY = (if minY < 0 then 0 else minY);
          maxY = (if maxY \<ge> GRID_HEIGHT then GRID_HEIGHT - 1 else maxY)
      in [minY .. maxY])"

definition stored :: "SpatialGrid \<Rightarrow> Vector2 \<Rightarrow> float \<Rightarrow> nat list" where
  "stored grid pos radius =
     concat (map (\<lambda>y. concat (map (\<lambda>x. cell_ids (cells grid x y)) (query_xs pos radius)))
       (query_ys pos radius))"

definition cell_members :: "(nat \<Rightarrow> Vector2) \<Rightarrow> (nat \<Rightarrow> bool) \<Rightarrow> nat \<Rightarrow> int \<Rightarrow> int \<Rightarrow> nat list" where
  "cell_members pos ent cnt x y = filter (\<lambda>j. ent j \<and> grid_cell_of (pos j) = (x, y)) [0 ..< cnt]"

text \<open>
  A position whose coordinates are C floats inside the world rectangle, boundary included.
\<close>

definition in_world :: "Vector2 \<Rightarrow> bool" where
  "in_world p \<longleftrightarrow>
     (case vx p of
        Fin x \<Rightarrow> (case vy p of
                    Fin y \<Rightarrow> is_float (Fin x) \<and> is_float (Fin y)
                             \<and> 0 \<le> x \<and> x \<le> real_of_int SCREEN_WIDTH
                             \<and> 0 \<le> y \<and> y \<le> real_of_int SCREEN_HEIGHT
                  | _ \<Rightarrow> False)
      | _ \<Rightarrow> False)"

text \<open>
  Position \<open>p\<close> is position \<open>q\<close> moved by one unit along one axis, in the direction
  \<open>(ux, uy)\<close>.
\<close>

definition unit_apart :: "Vector2 \<Rightarrow> Vector2 \<Rightarrow> real \<Rightarrow> real \<Rightarrow> bool" where
  "unit_apart p q ux uy \<longleftrightarrow>
     (case vx p of
        Fin px \<Rightarrow> (case vy p of
          Fin py \<Rightarrow> (case vx q of
            Fin qx \<Rightarrow> (case vy q of
              Fin qy \<Rightarrow> px - qx = ux \<and> py - qy = uy
                        \<and> ((\<bar>ux\<bar> = 1 \<and> uy = 0) \<or> (ux = 0 \<and> \<bar>uy\<bar> = 1))
            | _ \<Rightarrow> False)
          | _ \<Rightarrow> False)
        | _ \<Rightarrow> False)
      | _ \<Rightarrow> False)"

text \<open>Two active agents one unit apart, at rest; all other slots inactive.\<close>

definition two_ent :: "nat \<Rightarrow> bool" where
  "two_ent i = (i < 2)"

definition two_pos :: "nat \<Rightarrow> Vector2" where
  "two_pos i = (if i = 0 then \<lparr> vx = Fin 100, vy = Fin 100 \<rparr>
                else if i = 1 then \<lparr> vx = Fin 101, vy = Fin 100 \<rparr> else \<lparr> vx = Fin 0, vy = Fin 0 \<rparr>)"

definition zero_vecs :: "nat \<Rightarrow> Vector2" where
  "zero_vecs i = \<lparr> vx = Fin 0, vy = Fin 0 \<rparr>"

text \<open>The first palette colour of \<^verbatim>\<open>GetRandomColor\<close>, and the store of the two agents.\<close>

definition blue :: Color where
  "blue = \<lparr> col_r = 100, col_g = 143, col_b = 255, col_a = 255 \<rparr>"

definition blue_colors :: "nat \<Rightarrow> Color" where
  "blue_colors i = blue"

definition two_store :: Store where
  "two_store = \<lparr> entities = two_ent, positions = two_pos, velocities = zero_vecs,
     accelerations = zero_vecs, colors = blue_colors, entityCount = 2 \<rparr>"

text \<open>The same two agents, the second one moving along the x axis at unit speed.\<close>

definition moving_vecs :: "nat \<Rightarrow> Vector2" where
  "moving_vecs i = (if i = 1 then \<lparr> vx = Fin 1, vy = Fin 0 \<rparr> else \<lparr> vx = Fin 0, vy = Fin 0 \<rparr>)"

text \<open>Positions on the boundary of the world, and outside it.\<close>

definition edge_pos :: "nat \<Rightarrow> Vector2" where
  "edge_pos i = \<lparr> vx = Fin 0, vy = Fin 1440 \<rparr>"

definition outside_pos :: "nat \<Rightarrow> Vector2" where
  "outside_pos i = \<lparr> vx = Fin (- 1), vy = Fin 1441 \<rparr>"

text \<open>Velocities of magnitude 10, and of magnitude \<open>2 ^ 65\<close>.\<close>

definition fast_vecs :: "nat \<Rightarrow> Vector2" where
  "fast_vecs i = \<lparr> vx = Fin 6, vy = Fin 8 \<rparr>"


text \<open>The zero-initialised global grid, and an agent far to the right of the world.\<close>

definition spatialGrid :: SpatialGrid where
  "spatialGrid = \<lparr> cells = (\<lambda>x y. \<lparr> cell_entities = (\<lambda>k. 0), cell_count = 0 \<rparr>) \<rparr>"

definition far_pos :: "nat \<Rightarrow> Vector2" where
  "far_pos i = \<lparr> vx = Fin 3000, vy = Fin 100 \<rparr>"

text \<open>
  Two agents far apart, a crowd standing on one spot, and an empty and a full store.
\<close>

definition apart_pos :: "nat \<Rightarrow> Vector2" where
  "apart_pos i = (if i = 0 then \<lparr> vx = Fin 100, vy = Fin 100 \<rparr> else \<lparr> vx = Fin 1000, vy = Fin 1000 \<rparr>)"

definition crowd_pos :: "nat \<Rightarrow> Vector2" where
  "crowd_pos i = \<lparr> vx = Fin 100, vy = Fin 100 \<rparr>"

definition all_ent :: "nat \<Rightarrow> bool" where
  "all_ent i = True"

definition no_ent :: "nat \<Rightarrow> bool" where
  "no_ent i = False"

definition empty_store :: Store where
  "empty_store = \<lparr> entities = no_ent, positions = zero_vecs, velocities = zero_vecs,
     accelerations = zero_vecs, colors = blue_colors, entityCount = 0 \<rparr>"

definition full_store :: Store where
  "full_store = \<lparr> entities = all_ent, positions = zero_vecs, velocities = zero_vecs,
     accelerations = zero_vecs, colors = blue_colors, entityCount = 8000 \<rparr>"

section \<open>Rounding\<close>


lemma rne_of_int [simp]: "rne (real_of_int n) = n"
  by (simp add: rne_def)

lemma rne_mono: "x \<le> y \<Longrightarrow> rne x \<le> rne y"
proof -
  assume xy: "x \<le> y"
  have fm: "\<lfloor>x\<rfloor> \<le> \<lfloor>y\<rfloor>" using xy by (rule floor_mono)
  show ?thesis
  proof (cases "\<lfloor>x\<rfloor> = \<lfloor>y\<rfloor>")
    case True
    then show ?thesis using xy unfolding rne_def Let_def by auto
  next
    case False
    with fm have lt: "\<lfloor>x\<rfloor> + 1 \<le> \<lfloor>y\<rfloor>" by linarith
    have a: "rne x \<le> \<lfloor>x\<rfloor> + 1" unfolding rne_def Let_def by auto
    have b: "\<lfloor>y\<rfloor> \<le> rne y" unfolding rne_def Let_def by auto
    from a lt b show ?thesis by linarith
  qed
qed

lemma rne_minus: "rne (- x) = - rne x"
proof (cases "x = real_of_int \<lfloor>x\<rfloor>")
  case True
  have "rne (- real_of_int \<lfloor>x\<rfloor>) = - rne (real_of_int \<lfloor>x\<rfloor>)"
    using rne_of_int [of "- \<lfloor>x\<rfloor>"] by simp
  with True show ?thesis by simp
next
  case False
  have lt: "real_of_int \<lfloor>x\<rfloor> < x" using False of_int_floor_le [of x] by linarith
  have "x \<le> real_of_int \<lfloor>x\<rfloor> + 1" by linarith
  with lt have c: "\<lceil>x\<rceil> = \<lfloor>x\<rfloor> + 1" by (rule ceiling_eq)
  have f: "\<lfloor>- x\<rfloor> = - \<lfloor>x\<rfloor> - 1" using c by (simp add: floor_minus)
  show ?thesis unfolding rne_def Let_def f using lt by (auto simp: field_simps)
qed


lemma pow2_pos [simp]: "0 < (2::real) powi k"
  by (simp add: power_int_def)

lemma pow2_powr: "2 powr real_of_int k = (2::real) powi k"
  by (rule powr_real_of_int') simp_all

lemma pow2_mono: "j \<le> k \<Longrightarrow> (2::real) powi j \<le> 2 powi k"
  by (rule power_int_increasing) simp_all

lemma pow2_add: "(2::real) powi (j + k) = 2 powi j * 2 powi k"
  by (rule power_int_add) simp

lemma floor_log2:
  assumes "x \<noteq> 0"
  shows "2 powi \<lfloor>log 2 \<bar>x\<bar>\<rfloor> \<le> \<bar>x\<bar>" and "\<bar>x\<bar> < 2 powi (\<lfloor>log 2 \<bar>x\<bar>\<rfloor> + 1)"
proof -
  have p: "0 < \<bar>x\<bar>" using assms by simp
  have "2 powr real_of_int \<lfloor>log 2 \<bar>x\<bar>\<rfloor> \<le> \<bar>x\<bar>
      \<and> \<bar>x\<bar> < 2 powr (real_of_int \<lfloor>log 2 \<bar>x\<bar>\<rfloor> + 1)"
    using floor_log_eq_powr_iff [OF p, of 2 "\<lfloor>log 2 \<bar>x\<bar>\<rfloor>"] by simp
  then have a: "2 powr real_of_int \<lfloor>log 2 \<bar>x\<bar>\<rfloor> \<le> \<bar>x\<bar>"
    and b: "\<bar>x\<bar> < 2 powr real_of_int (\<lfloor>log 2 \<bar>x\<bar>\<rfloor> + 1)" by simp_all
  from a show "2 powi \<lfloor>log 2 \<bar>x\<bar>\<rfloor> \<le> \<bar>x\<bar>" by (simp only: pow2_powr)
  from b show "\<bar>x\<bar> < 2 powi (\<lfloor>log 2 \<bar>x\<bar>\<rfloor> + 1)" by (simp only: pow2_powr)
qed

lemma floor_log2_eq:
  assumes "2 powi k \<le> \<bar>x\<bar>" "\<bar>x\<bar> < 2 powi (k + 1)"
  shows "\<lfloor>log 2 \<bar>x\<bar>\<rfloor> = k"
proof -
  have p: "0 < \<bar>x\<bar>" using assms(1) pow2_pos [of k] by linarith
  have "2 powr real_of_int k \<le> \<bar>x\<bar> \<and> \<bar>x\<bar> < 2 powr (real_of_int k + 1)"
    using assms pow2_powr [of k] pow2_powr [of "k + 1"] by simp
  then show ?thesis using floor_log_eq_powr_iff [OF p, of 2 k] by simp
qed

lemma expo_ge: "- 126 \<le> expo x"
  by (simp add: expo_def)

lemma expo_normal:
  assumes "2 powi k \<le> \<bar>x\<bar>" "\<bar>x\<bar> < 2 powi (k + 1)" "- 126 \<le> k"
  shows "expo x = k"
proof -
  have "0 < \<bar>x\<bar>" using assms(1) pow2_pos [of k] by linarith
  then have "x \<noteq> 0" by auto
  then show ?thesis using assms by (simp add: expo_def floor_log2_eq)
qed


lemma expo_upper: "\<bar>x\<bar> < 2 powi (expo x + 1)"
proof (cases "x = 0")
  case True
  then show ?thesis by simp
next
  case False
  have "\<lfloor>log 2 \<bar>x\<bar>\<rfloor> + 1 \<le> expo x + 1" using False by (simp add: expo_def)
  then have "(2::real) powi (\<lfloor>log 2 \<bar>x\<bar>\<rfloor> + 1) \<le> 2 powi (expo x + 1)" by (rule pow2_mono)
  with floor_log2(2) [OF False] show ?thesis by linarith
qed

lemma expo_lower: "- 126 < expo x \<Longrightarrow> 2 powi (expo x) \<le> \<bar>x\<bar>"
proof -
  assume a: "- 126 < expo x"
  then have n: "x \<noteq> 0" by (auto simp: expo_def)
  with a have e: "expo x = \<lfloor>log 2 \<bar>x\<bar>\<rfloor>" by (simp add: expo_def max_def split: if_splits)
  show ?thesis unfolding e by (rule floor_log2(1) [OF n])
qed

lemma expo_minus [simp]: "expo (- x) = expo x"
  by (simp add: expo_def)

lemma expo_mono_abs: "\<bar>x\<bar> \<le> \<bar>y\<bar> \<Longrightarrow> expo x \<le> expo y"
proof -
  assume xy: "\<bar>x\<bar> \<le> \<bar>y\<bar>"
  show ?thesis
  proof (cases "x = 0")
    case True
    then show ?thesis using expo_ge [of y] by (simp add: expo_def)
  next
    case False
    then have y: "y \<noteq> 0" using xy by auto
    have "log 2 \<bar>x\<bar> \<le> log 2 \<bar>y\<bar>" using False y xy by simp
    then have "\<lfloor>log 2 \<bar>x\<bar>\<rfloor> \<le> \<lfloor>log 2 \<bar>y\<bar>\<rfloor>" by (rule floor_mono)
    then show ?thesis using False y by (simp add: expo_def)
  qed
qed

lemma ulp_pos [simp]: "0 < ulp x"
  by (simp add: ulp_def)

lemma ulp_nonneg [simp]: "0 \<le> ulp x"
  by (simp add: ulp_def less_imp_le)

lemma ulp_neq0 [simp]: "ulp x \<noteq> 0"
  using pow2_pos [of "expo x - 23"] by (simp add: ulp_def)

lemma abs_ulp [simp]: "\<bar>ulp x\<bar> = ulp x"
  by (rule abs_of_nonneg) simp

lemma ulp_minus [simp]: "ulp (- x) = ulp x"
  by (simp add: ulp_def)

lemma ulp_ge: "2 powi (- 149) \<le> ulp x"
  unfolding ulp_def using expo_ge [of x] by (intro pow2_mono) simp

lemma abs_scaled: "\<bar>x / ulp x\<bar> = \<bar>x\<bar> / ulp x"
  using ulp_pos [of x] by (simp only: abs_divide abs_of_pos)

lemma scaled_upper: "\<bar>x / ulp x\<bar> < 2 ^ 24"
proof -
  have eq: "expo x + 1 = 24 + (expo x - 23)" by simp
  have "\<bar>x\<bar> < 2 powi (expo x + 1)" by (rule expo_upper)
  also have "\<dots> = 2 powi 24 * 2 powi (expo x - 23)"
    by (subst eq) (rule pow2_add)
  finally have "\<bar>x\<bar> < 2 ^ 24 * ulp x" by (simp add: ulp_def)
  then have "\<bar>x\<bar> / ulp x < 2 ^ 24" by (simp add: pos_divide_less_eq)
  then show ?thesis by (simp only: abs_scaled)
qed

lemma scaled_lower: "- 126 < expo x \<Longrightarrow> 2 ^ 23 \<le> \<bar>x / ulp x\<bar>"
proof -
  assume a: "- 126 < expo x"
  have eq: "expo x = 23 + (expo x - 23)" by simp
  have "(2::real) powi (expo x) = 2 powi 23 * 2 powi (expo x - 23)"
    by (subst eq) (rule pow2_add)
  with expo_lower [OF a] have "2 ^ 23 * ulp x \<le> \<bar>x\<bar>" by (simp add: ulp_def)
  then have "2 ^ 23 \<le> \<bar>x\<bar> / ulp x" by (simp add: pos_le_divide_eq)
  then show ?thesis by (simp only: abs_scaled)
qed


lemma rounded_0 [simp]: "rounded 0 = 0"
  using rne_of_int [of 0] by (simp add: rounded_def)

lemma rounded_minus: "rounded (- x) = - rounded x"
  by (simp add: rounded_def rne_minus)


lemma rne_le_pow: "x \<le> real_of_int n \<Longrightarrow> rne x \<le> n"
  using rne_mono [of x "real_of_int n"] by simp

lemma rne_ge_pow: "real_of_int n \<le> x \<Longrightarrow> n \<le> rne x"
  using rne_mono [of "real_of_int n" x] by simp

lemma rounded_nonneg: "0 \<le> x \<Longrightarrow> 0 \<le> rounded x"
proof -
  assume "0 \<le> x"
  then have "real_of_int 0 \<le> x / ulp x" using ulp_pos [of x] by simp
  then have "0 \<le> rne (x / ulp x)" by (rule rne_ge_pow)
  then show ?thesis using ulp_pos [of x] by (simp add: rounded_def)
qed

lemma rounded_nonpos: "x \<le> 0 \<Longrightarrow> rounded x \<le> 0"
  using rounded_nonneg [of "- x"] by (simp add: rounded_minus)

lemma rounded_upper: "0 \<le> x \<Longrightarrow> rounded x \<le> 2 powi (expo x + 1)"
proof -
  assume "0 \<le> x"
  have "x / ulp x \<le> \<bar>x / ulp x\<bar>" by (rule abs_ge_self)
  also have "\<dots> \<le> real_of_int (2 ^ 24)" using scaled_upper [of x] by simp
  finally have "rne (x / ulp x) \<le> 2 ^ 24" by (rule rne_le_pow)
  then have "real_of_int (rne (x / ulp x)) \<le> real_of_int (2 ^ 24)" by (simp only: of_int_le_iff)
  then have "real_of_int (rne (x / ulp x)) \<le> 2 ^ 24" by simp
  then have "rounded x \<le> 2 ^ 24 * ulp x"
    unfolding rounded_def using ulp_pos [of x] by (intro mult_right_mono) simp_all
  also have "2 ^ 24 * ulp x = 2 powi 24 * 2 powi (expo x - 23)" by (simp add: ulp_def)
  also have "\<dots> = 2 powi (24 + (expo x - 23))" by (rule pow2_add [symmetric])
  finally show ?thesis by (simp add: add.commute)
qed

lemma rounded_lower: "0 \<le> x \<Longrightarrow> - 126 < expo x \<Longrightarrow> 2 powi (expo x) \<le> rounded x"
proof -
  assume x: "0 \<le> x" and e: "- 126 < expo x"
  have "x / ulp x = \<bar>x / ulp x\<bar>" using x ulp_pos [of x] by simp
  with scaled_lower [OF e] have "real_of_int (2 ^ 23) \<le> x / ulp x" by simp
  then have "2 ^ 23 \<le> rne (x / ulp x)" by (rule rne_ge_pow)
  then have "real_of_int (2 ^ 23) \<le> real_of_int (rne (x / ulp x))" by (simp only: of_int_le_iff)
  then have "2 ^ 23 \<le> real_of_int (rne (x / ulp x))" by simp
  then have "2 ^ 23 * ulp x \<le> rounded x"
    unfolding rounded_def using ulp_pos [of x] by (intro mult_right_mono) simp_all
  moreover have "2 ^ 23 * ulp x = 2 powi 23 * 2 powi (expo x - 23)" by (simp add: ulp_def)
  moreover have "\<dots> = 2 powi (23 + (expo x - 23))" by (rule pow2_add [symmetric])
  ultimately show ?thesis by simp
qed

lemma rounded_mono_nonneg:
  assumes "0 \<le> x" "x \<le> y"
  shows "rounded x \<le> rounded y"
proof -
  have y: "0 \<le> y" using assms by simp
  have e: "expo x \<le> expo y" using assms by (intro expo_mono_abs) simp
  show ?thesis
  proof (cases "expo x = expo y")
    case True
    then have u: "ulp x = ulp y" by (simp add: ulp_def)
    have "x / ulp y \<le> y / ulp y" using assms(2) ulp_pos [of y] by (simp add: divide_right_mono)
    then have "rne (x / ulp y) \<le> rne (y / ulp y)" by (rule rne_mono)
    then have "real_of_int (rne (x / ulp y)) \<le> real_of_int (rne (y / ulp y))" by simp
    then show ?thesis
      unfolding rounded_def u using ulp_pos [of y] by (intro mult_right_mono) simp_all
  next
    case False
    with e have lt: "expo x + 1 \<le> expo y" by simp
    have "- 126 < expo y" using lt expo_ge [of x] by linarith
    from rounded_lower [OF y this] have "2 powi (expo y) \<le> rounded y" .
    moreover have "(2::real) powi (expo x + 1) \<le> 2 powi (expo y)" using lt by (rule pow2_mono)
    moreover note rounded_upper [OF assms(1)]
    ultimately show ?thesis by linarith
  qed
qed

lemma rounded_mono: "x \<le> y \<Longrightarrow> rounded x \<le> rounded y"
proof -
  assume xy: "x \<le> y"
  consider "0 \<le> x" | "x < 0" "0 \<le> y" | "y < 0" by linarith
  then show ?thesis
  proof cases
    case 1
    then show ?thesis using xy by (rule rounded_mono_nonneg)
  next
    case 2
    then have "rounded x \<le> 0" "0 \<le> rounded y"
      by (simp_all add: rounded_nonpos rounded_nonneg)
    then show ?thesis by linarith
  next
    case 3
    then have "rounded (- y) \<le> rounded (- x)" using xy by (intro rounded_mono_nonneg) simp_all
    then show ?thesis by (simp add: rounded_minus)
  qed
qed

lemma rounded_exact:
  assumes "x = real_of_int m * 2 powi k" "\<bar>m\<bar> < 2 ^ 24" "- 149 \<le> k"
  shows "rounded x = x"
proof (cases "x = 0")
  case True
  then show ?thesis by simp
next
  case False
  have ke: "expo x - 23 \<le> k"
  proof (cases "expo x = - 126")
    case True
    then show ?thesis using assms(3) by simp
  next
    case f: False
    then have e: "- 126 < expo x" using expo_ge [of x] by linarith
    have "2 powi (expo x) \<le> \<bar>x\<bar>" by (rule expo_lower [OF e])
    also have "\<bar>x\<bar> = real_of_int \<bar>m\<bar> * 2 powi k" by (simp add: assms(1) abs_mult)
    also have "\<dots> < 2 ^ 24 * 2 powi k"
      using assms(2) by (intro mult_strict_right_mono) (simp_all add: of_int_less_numeral_power_cancel_iff)
    also have "\<dots> = 2 powi 24 * 2 powi k" by simp
    also have "\<dots> = 2 powi (24 + k)" by (rule pow2_add [symmetric])
    finally have "(2::real) powi (expo x) < 2 powi (24 + k)" .
    then have "expo x < 24 + k"
    proof (rule_tac ccontr)
      assume lt: "(2::real) powi (expo x) < 2 powi (24 + k)" and "\<not> expo x < 24 + k"
      then have "(2::real) powi (24 + k) \<le> 2 powi (expo x)" by (intro pow2_mono) simp
      with lt show False by linarith
    qed
    then show ?thesis by simp
  qed
  define j where "j = nat (k - (expo x - 23))"
  define u where "u = (2::real) powi (expo x - 23)"
  have u0: "0 < u" by (simp add: u_def)
  have ulp: "ulp x = u" by (simp add: ulp_def u_def)
  have k: "k = (expo x - 23) + int j" using ke by (simp add: j_def)
  have p: "(2::real) powi k = u * 2 powi (int j)"
    unfolding u_def by (subst k) (rule pow2_add)
  have xu: "x = real_of_int m * (u * 2 ^ j)" using assms(1) p by simp
  have "x / u = real_of_int m * (u * 2 ^ j) / u" using xu by simp
  also have "\<dots> = real_of_int (m * 2 ^ j)" using u0 by simp
  finally have "rne (x / u) = m * 2 ^ j" by (simp only: rne_of_int)
  then have "rounded x = real_of_int (m * 2 ^ j) * u" by (simp add: rounded_def ulp)
  also have "\<dots> = real_of_int m * (u * 2 ^ j)" by simp
  finally show ?thesis using xu by simp
qed

lemma rne_abs_le: "\<bar>x\<bar> \<le> real_of_int n \<Longrightarrow> \<bar>rne x\<bar> \<le> n"
proof -
  assume a: "\<bar>x\<bar> \<le> real_of_int n"
  then have "x \<le> real_of_int n" by linarith
  then have u: "rne x \<le> n" by (rule rne_le_pow)
  from a have "real_of_int (- n) \<le> x" by simp
  then have "- n \<le> rne x" by (rule rne_ge_pow)
  with u show ?thesis by linarith
qed

lemma rounded_repr:
  "\<exists>m k. rounded x = real_of_int m * 2 powi k \<and> \<bar>m\<bar> < 2 ^ 24 \<and> - 149 \<le> k"
proof -
  define n where "n = rne (x / ulp x)"
  define k where "k = expo x - 23"
  have k: "- 149 \<le> k" using expo_ge [of x] by (simp add: k_def)
  have r: "rounded x = real_of_int n * 2 powi k" by (simp add: rounded_def n_def k_def ulp_def)
  have "\<bar>x / ulp x\<bar> \<le> real_of_int (2 ^ 24)" using scaled_upper [of x] by simp
  then have n: "\<bar>n\<bar> \<le> 2 ^ 24" unfolding n_def by (rule rne_abs_le)
  show ?thesis
  proof (cases "\<bar>n\<bar> < 2 ^ 24")
    case True
    with r k show ?thesis by blast
  next
    case False
    with n have "n = 2 ^ 24 \<or> n = - (2 ^ 24)" by linarith
    then have n2: "real_of_int n = real_of_int (n div 2) * 2" and m: "\<bar>n div 2\<bar> < 2 ^ 24" by auto
    have "(2::real) powi (k + 1) = 2 powi k * 2 powi 1" by (rule pow2_add)
    then have "(2::real) powi (k + 1) = 2 powi k * 2" by simp
    then have "rounded x = real_of_int (n div 2) * 2 powi (k + 1)"
      unfolding r by (subst n2) simp
    moreover have "- 149 \<le> k + 1" using k by simp
    ultimately show ?thesis using m by blast
  qed
qed

lemma rounded_idem [simp]: "rounded (rounded x) = rounded x"
proof -
  obtain m k where "rounded x = real_of_int m * 2 powi k" "\<bar>m\<bar> < 2 ^ 24" "- 149 \<le> k"
    using rounded_repr by blast
  then show ?thesis by (rule rounded_exact)
qed

lemma rounded_int: "\<bar>n\<bar> \<le> 2 ^ 24 \<Longrightarrow> rounded (real_of_int n) = real_of_int n"
proof -
  assume n: "\<bar>n\<bar> \<le> 2 ^ 24"
  show ?thesis
  proof (cases "\<bar>n\<bar> < 2 ^ 24")
    case True
    have "real_of_int n = real_of_int n * 2 powi 0" by simp
    then show ?thesis using True by (rule rounded_exact) simp
  next
    case False
    with n have "n = 2 ^ 24 \<or> n = - (2 ^ 24)" by linarith
    then have n2: "real_of_int n = real_of_int (n div 2) * 2 powi 1" and m: "\<bar>n div 2\<bar> < 2 ^ 24"
      by auto
    show ?thesis by (rule rounded_exact [OF n2 m]) simp
  qed
qed

lemma rounded_numeral [simp]:
  "numeral w \<le> (16777216::int) \<Longrightarrow> rounded (numeral w) = numeral w"
  using rounded_int [of "numeral w"] by simp

lemma rounded_1 [simp]: "rounded 1 = 1"
  using rounded_int [of 1] by simp

lemma rounded_pow2: "- 149 \<le> k \<Longrightarrow> rounded (2 powi k) = 2 powi k"
  by (rule rounded_exact [where m = 1 and k = k]) simp_all

lemma rounded_dyadic:
  "\<bar>m\<bar> < 2 ^ 24 \<Longrightarrow> j \<le> 149 \<Longrightarrow> rounded (real_of_int m / 2 ^ j) = real_of_int m / 2 ^ j"
proof -
  assume m: "\<bar>m\<bar> < 2 ^ 24" and j: "j \<le> 149"
  have "(2::real) powi (- int j) = 1 / 2 ^ j" by (simp add: power_int_minus field_simps)
  then have e: "real_of_int m / 2 ^ j = real_of_int m * 2 powi (- int j)" by simp
  have k: "- 149 \<le> - int j" using j by simp
  show ?thesis by (rule rounded_exact [OF e m k])
qed

lemma FLT_MAX_pos: "0 < FLT_MAX"
  by (simp add: FLT_MAX_def)

lemma rounded_FLT_MAX: "rounded FLT_MAX = FLT_MAX"
  by (rule rounded_exact [where m = "2 ^ 24 - 1" and k = 104]) (simp_all add: FLT_MAX_def)

lemma rounded_le_FLT_MAX: "\<bar>x\<bar> \<le> FLT_MAX \<Longrightarrow> \<bar>rounded x\<bar> \<le> FLT_MAX"
proof -
  assume a: "\<bar>x\<bar> \<le> FLT_MAX"
  then have "x \<le> FLT_MAX" by linarith
  then have u: "rounded x \<le> FLT_MAX" using rounded_mono [of x FLT_MAX] by (simp add: rounded_FLT_MAX)
  from a have "- FLT_MAX \<le> x" by linarith
  then have "- FLT_MAX \<le> rounded x"
    using rounded_mono [of "- FLT_MAX" x] by (simp add: rounded_minus rounded_FLT_MAX)
  with u show ?thesis by linarith
qed

lemma rnd_Fin: "\<bar>x\<bar> \<le> FLT_MAX \<Longrightarrow> rnd x = Fin (rounded x)"
  using rounded_le_FLT_MAX [of x] by (auto simp: rnd_def clip_def abs_le_iff)

lemma rnd_neq_NaN [simp]: "rnd x \<noteq> NaN" "NaN \<noteq> rnd x"
  by (simp_all add: rnd_def clip_def)

lemma rnd_eq_Fin: "rnd x = Fin y \<longleftrightarrow> y = rounded x \<and> \<bar>rounded x\<bar> \<le> FLT_MAX"
  by (auto simp: rnd_def clip_def)


lemma rnd_eq_NInf: "rnd x = NInf \<longleftrightarrow> rounded x < - FLT_MAX"
  using FLT_MAX_pos by (auto simp: rnd_def clip_def)

lemma is_float_Fin: "is_float (Fin x) \<longleftrightarrow> rounded x = x \<and> \<bar>x\<bar> \<le> FLT_MAX"
  by (auto simp: is_float_def rnd_eq_Fin)

lemma rnd_cases:
  "rnd x = PInf \<or> rnd x = NInf \<or> (rnd x = Fin (rounded x) \<and> \<bar>rounded x\<bar> \<le> FLT_MAX)"
  by (auto simp: rnd_def clip_def abs_le_iff)

lemma is_float_inf [simp]: "is_float PInf" "is_float NInf" "is_float NaN"
  by (simp_all add: is_float_def)

lemma is_float_rnd [simp]: "is_float (rnd x)"
  using rnd_cases [of x] by (auto simp: is_float_Fin)

lemma rnd_float: "is_float (Fin x) \<Longrightarrow> rnd x = Fin x"
  by (simp add: is_float_def)

lemma rnd_0 [simp]: "rnd 0 = Fin 0"
  using FLT_MAX_pos by (simp add: rnd_eq_Fin)

lemma pow24_le_FLT_MAX: "2 ^ 24 \<le> FLT_MAX"
  by (simp add: FLT_MAX_def)

lemma rnd_int: "\<bar>n\<bar> \<le> 2 ^ 24 \<Longrightarrow> rnd (real_of_int n) = Fin (real_of_int n)"
proof -
  assume n: "\<bar>n\<bar> \<le> 2 ^ 24"
  then have "\<bar>real_of_int n\<bar> \<le> real_of_int (2 ^ 24)" by (simp only: of_int_abs [symmetric] of_int_le_iff)
  then have "\<bar>real_of_int n\<bar> \<le> FLT_MAX" using pow24_le_FLT_MAX by simp
  then show ?thesis by (simp add: rnd_Fin rounded_int [OF n])
qed

lemma rnd_numeral [simp]:
  "numeral w \<le> (16777216::int) \<Longrightarrow> rnd (numeral w) = Fin (numeral w)"
  "numeral w \<le> (16777216::int) \<Longrightarrow> rnd (- numeral w) = Fin (- numeral w)"
  using rnd_int [of "numeral w"] rnd_int [of "- numeral w"] by simp_all

lemma rnd_1 [simp]: "rnd 1 = Fin 1" "rnd (- 1) = Fin (- 1)"
  using rnd_int [of 1] rnd_int [of "- 1"] by simp_all

lemma rounded_le: "x \<le> b \<Longrightarrow> rounded b = b \<Longrightarrow> rounded x \<le> b"
  using rounded_mono [of x b] by simp

lemma rounded_ge: "b \<le> x \<Longrightarrow> rounded b = b \<Longrightarrow> b \<le> rounded x"
  using rounded_mono [of b x] by simp

lemma rounded_abs_le: "\<bar>x\<bar> \<le> b \<Longrightarrow> rounded b = b \<Longrightarrow> \<bar>rounded x\<bar> \<le> b"
proof -
  assume a: "\<bar>x\<bar> \<le> b" and b: "rounded b = b"
  from a have "x \<le> b" by linarith
  then have u: "rounded x \<le> b" using b by (rule rounded_le)
  have "rounded (- b) = - b" by (simp add: rounded_minus b)
  moreover from a have "- b \<le> x" by linarith
  ultimately have "- b \<le> rounded x" by (intro rounded_ge)
  with u show ?thesis by linarith
qed

lemma rounded_pow [simp]: "rounded (2 ^ n) = 2 ^ n"
  using rounded_pow2 [of "int n"] by simp

lemma pow_le_FLT_MAX: "n \<le> 127 \<Longrightarrow> (2::real) ^ n \<le> FLT_MAX"
proof -
  assume "n \<le> 127"
  then have "(2::real) ^ n \<le> 2 ^ 127" by (intro power_increasing) simp_all
  also have "\<dots> \<le> FLT_MAX" by (simp add: FLT_MAX_def)
  finally show ?thesis .
qed

lemma rnd_bounded:
  assumes "\<bar>x\<bar> \<le> 2 ^ n" "n \<le> 127"
  shows "rnd x = Fin (rounded x)" and "\<bar>rounded x\<bar> \<le> 2 ^ n"
proof -
  have "\<bar>x\<bar> \<le> FLT_MAX" using assms(1) pow_le_FLT_MAX [OF assms(2)] by linarith
  then show "rnd x = Fin (rounded x)" by (rule rnd_Fin)
  show "\<bar>rounded x\<bar> \<le> 2 ^ n" using assms(1) by (rule rounded_abs_le) simp
qed


lemma FLT_TRUE_MIN_pos: "0 < FLT_TRUE_MIN"
  by (simp add: FLT_TRUE_MIN_def)

lemma ulp_ge_min: "FLT_TRUE_MIN \<le> ulp x"
  unfolding FLT_TRUE_MIN_def by (rule ulp_ge)

lemma rounded_min: "rounded FLT_TRUE_MIN = FLT_TRUE_MIN"
  unfolding FLT_TRUE_MIN_def by (rule rounded_pow2) simp


lemma FLT_MIN_pos: "0 < FLT_MIN"
  by (simp add: FLT_MIN_def)

section \<open>Rounding error\<close>














section \<open>Float operations\<close>

lemma flt_irrefl [simp]: "\<not> flt a a"
  by (cases a) simp_all

lemma flt_NaN [simp]: "\<not> flt NaN a" "\<not> flt a NaN"
  by (cases a; simp)+

lemma flt_PInf_left [simp]: "\<not> flt PInf a"
  by (cases a) simp_all

lemma flt_NInf_right [simp]: "\<not> flt a NInf"
  by (cases a) simp_all

lemma flt_asym: "flt a b \<Longrightarrow> \<not> flt b a"
  by (cases a; cases b) simp_all

lemma flt_trans: "flt a b \<Longrightarrow> flt b c \<Longrightarrow> flt a c"
  by (cases a; cases b; cases c) simp_all

lemma is_float_fadd [simp]: "is_float (fadd a b)"
  by (cases a; cases b) simp_all

lemma is_float_fneg [simp]: "is_float (fneg a) = is_float a"
  by (cases a) (simp_all add: is_float_Fin rounded_minus)

lemma is_float_fmul [simp]: "is_float (fmul a b)"
  by (cases a; cases b) simp_all

lemma is_float_fquot [simp]: "is_float (fquot a b)"
  by (cases a; cases b) (simp_all add: is_float_Fin FLT_MAX_pos less_imp_le)

lemma is_float_fsqrt [simp]: "is_float (fsqrt a)"
  by (cases a) simp_all

lemma is_float_fsub [simp]: "is_float (fsub a b)"
  by (simp add: fsub_def)

lemma is_float_float_of_int [simp]: "is_float (float_of_int n)"
  by (simp add: float_of_int_def)

lemma fadd_commute: "fadd a b = fadd b a"
  by (cases a; cases b) (simp_all add: add.commute)

lemma fmul_commute: "fmul a b = fmul b a"
  by (cases a; cases b) (simp_all add: mult.commute)

lemma fadd_zero_left: "is_float a \<Longrightarrow> fadd (Fin 0) a = a"
  by (cases a) (simp_all add: rnd_float)


lemma fsub_zero_right: "is_float a \<Longrightarrow> fsub a (Fin 0) = a"
  by (cases a) (simp_all add: rnd_float fsub_def)

lemma rounded_granular: "0 < rounded x \<Longrightarrow> FLT_TRUE_MIN \<le> rounded x"
proof -
  assume p: "0 < rounded x"
  have "0 < real_of_int (rne (x / ulp x))"
    using p ulp_pos [of x] by (simp add: rounded_def zero_less_mult_iff)
  then have "1 \<le> rne (x / ulp x)" by simp
  then have "1 \<le> real_of_int (rne (x / ulp x))" by simp
  then have "1 * ulp x \<le> rounded x"
    unfolding rounded_def using ulp_pos [of x] by (intro mult_right_mono) simp_all
  with ulp_ge_min [of x] show ?thesis by simp
qed

lemma is_float_granular: "is_float (Fin z) \<Longrightarrow> 0 < z \<Longrightarrow> FLT_TRUE_MIN \<le> z"
  using rounded_granular [of z] by (simp add: is_float_Fin)

lemma FLT_TRUE_MIN_le_1: "FLT_TRUE_MIN \<le> 1"
  using pow2_mono [of "- 149" 0] by (simp only: FLT_TRUE_MIN_def power_int_0_right)

lemma sqrt_ge_small:
  assumes "s \<le> z" "s \<le> 1" "0 < z"
  shows "s \<le> sqrt z"
proof (cases "z \<le> 1")
  case True
  have "z\<^sup>2 \<le> z" using True assms(3) by (simp add: power2_eq_square mult_left_le)
  then have "z \<le> sqrt z" by (rule real_le_rsqrt)
  with assms(1) show ?thesis by linarith
next
  case False
  then have "1 \<le> sqrt z" by simp
  with assms(2) show ?thesis by linarith
qed

lemma rnd_pos_neq0: "FLT_TRUE_MIN \<le> x \<Longrightarrow> rnd x \<noteq> Fin 0"
proof -
  assume a: "FLT_TRUE_MIN \<le> x"
  then have "rounded FLT_TRUE_MIN \<le> rounded x" by (rule rounded_mono)
  then have "FLT_TRUE_MIN \<le> rounded x" by (simp only: rounded_min)
  then have "0 < rounded x" using FLT_TRUE_MIN_pos by linarith
  then show ?thesis using rnd_cases [of x] by auto
qed

lemma fsqrt_nonzero:
  assumes "is_float a" "flt (Fin c) a" "0 \<le> c"
  shows "fsqrt a \<noteq> Fin 0"
proof (cases a)
  case (Fin z)
  with assms have z: "0 < z" by simp
  with assms(1) Fin have "FLT_TRUE_MIN \<le> z" by (simp add: is_float_granular)
  then have "FLT_TRUE_MIN \<le> sqrt z" using FLT_TRUE_MIN_le_1 z by (rule sqrt_ge_small)
  then have "rnd (sqrt z) \<noteq> Fin 0" by (rule rnd_pos_neq0)
  with z Fin show ?thesis by simp
qed (use assms in simp_all)

lemma rnd_nonneg_cases:
  "0 \<le> x \<Longrightarrow> rnd x = PInf \<or> (\<exists>c. rnd x = Fin c \<and> 0 \<le> c)"
  using rnd_cases [of x] rounded_nonneg [of x] FLT_MAX_pos by (auto simp: rnd_eq_NInf)

lemma fmul_self_cases:
  "fmul a a = NaN \<or> fmul a a = PInf \<or> (\<exists>c. fmul a a = Fin c \<and> 0 \<le> c)"
proof (cases a)
  case (Fin x)
  have "0 \<le> x * x" by simp
  from rnd_nonneg_cases [OF this] Fin show ?thesis by auto
qed simp_all

lemma float_of_int_pos: "0 < n \<Longrightarrow> float_of_int n \<noteq> Fin 0"
proof -
  assume "0 < n"
  then have "1 \<le> real_of_int n" by simp
  with FLT_TRUE_MIN_le_1 have "FLT_TRUE_MIN \<le> real_of_int n" by linarith
  then show ?thesis unfolding float_of_int_def by (rule rnd_pos_neq0)
qed

section \<open>Vector operations never divide by zero\<close>

lemma Vector2SetMag_val: "Vector2SetMag v mag = Some (setmag_val v mag)"
proof -
  have "b \<noteq> Fin 0" if "flt (Fin 0) b" for b using that by auto
  then show ?thesis by (simp add: Vector2SetMag_def setmag_val_def fdiv_def Let_def)
qed

lemma Vector2Limit_val: "Vector2Limit v maxv = Some (limit_val v maxv)"
proof (cases "flt (fmul maxv maxv) (fadd (fmul (vx v) (vx v)) (fmul (vy v) (vy v)))")
  case True
  from fmul_self_cases [of maxv] True obtain c
    where c: "fmul maxv maxv = Fin c" "0 \<le> c" by auto
  have "fsqrt (fadd (fmul (vx v) (vx v)) (fmul (vy v) (vy v))) \<noteq> Fin 0"
    using True unfolding c(1) by (intro fsqrt_nonzero [where c = c] c(2)) simp_all
  with True show ?thesis by (simp add: Vector2Limit_def limit_val_def fdiv_def Let_def)
next
  case False
  then show ?thesis by (simp add: Vector2Limit_def limit_val_def Let_def)
qed

lemma setmag_zero [simp]: "setmag_val \<lparr> vx = Fin 0, vy = Fin 0 \<rparr> mag = \<lparr> vx = Fin 0, vy = Fin 0 \<rparr>"
  by (simp add: setmag_val_def Let_def)

lemma limit_zero [simp]: "limit_val \<lparr> vx = Fin 0, vy = Fin 0 \<rparr> maxv = \<lparr> vx = Fin 0, vy = Fin 0 \<rparr>"
  using fmul_self_cases [of maxv] by (auto simp: limit_val_def Let_def)

text \<open>
  Claim C9. \<^verbatim>\<open>Vector2SetMag\<close> and \<^verbatim>\<open>Vector2Limit\<close> return a zero-length input vector
  unchanged, and for every input vector and every target magnitude (infinities and NaN
  included) neither function reaches a division by zero (neither returns \<open>None\<close>).
\<close>

theorem C9_zero_vector_guard:
  "Vector2SetMag \<lparr> vx = Fin 0, vy = Fin 0 \<rparr> mag = Some \<lparr> vx = Fin 0, vy = Fin 0 \<rparr>
   \<and> Vector2Limit \<lparr> vx = Fin 0, vy = Fin 0 \<rparr> maxv = Some \<lparr> vx = Fin 0, vy = Fin 0 \<rparr>
   \<and> Vector2SetMag v mag \<noteq> None
   \<and> Vector2Limit v maxv \<noteq> None"
  by (simp add: Vector2SetMag_val Vector2Limit_val)

theorem C9_zero_vector_guard_witness:
  "Vector2SetMag \<lparr> vx = Fin 0, vy = Fin 0 \<rparr> (Fin 5) = Some \<lparr> vx = Fin 0, vy = Fin 0 \<rparr>
   \<and> Vector2Limit \<lparr> vx = Fin 0, vy = Fin 0 \<rparr> (Fin 0) = Some \<lparr> vx = Fin 0, vy = Fin 0 \<rparr>
   \<and> Vector2SetMag \<lparr> vx = Fin 3, vy = Fin 4 \<rparr> (Fin 5) \<noteq> None
   \<and> Vector2Limit \<lparr> vx = Fin 3, vy = Fin 4 \<rparr> (Fin 0) \<noteq> None"
  using C9_zero_vector_guard [of "Fin 5" "Fin 0" "\<lparr> vx = Fin 3, vy = Fin 4 \<rparr>"] by simp

section \<open>Loops\<close>

lemma for_each_total:
  "(\<And>a s. f a s = Some (g a s)) \<Longrightarrow> for_each f as s = Some (fold g as s)"
  by (induction as arbitrary: s) simp_all

lemma fold_pointwise:
  "(\<And>i s. f i s = s (i := h i (s i))) \<Longrightarrow>
   fold f [0 ..< n] s = (\<lambda>k. if k < n then h k (s k) else s k)"
proof (induction n)
  case 0
  show ?case by simp
next
  case (Suc n)
  have "fold f [0 ..< Suc n] s = f n (fold f [0 ..< n] s)" by simp
  also have "\<dots> = (fold f [0 ..< n] s) (n := h n (fold f [0 ..< n] s n))"
    by (rule Suc.prems)
  also have "\<dots> = (\<lambda>k. if k < Suc n then h k (s k) else s k)"
    by (auto simp: Suc.IH [OF Suc.prems] fun_eq_iff less_Suc_eq)
  finally show ?case .
qed


section \<open>Boundary wrap\<close>

lemma wrap_agent_eq:
  "wrap_agent ent w h i pos = pos (i := if ent i then wrap_val w h (pos i) else pos i)"
  by (cases "pos i") (auto simp: wrap_agent_def wrap_val_def Let_def fun_eq_iff)

lemma WrapAroundSystem_eq:
  "WrapAroundSystem pos ent cnt w h =
     (\<lambda>k. if k < cnt then (if ent k then wrap_val w h (pos k) else pos k) else pos k)"
  unfolding WrapAroundSystem_def
  by (rule fold_pointwise [where h = "\<lambda>i p. if ent i then wrap_val w h p else p"])
     (rule wrap_agent_eq)

lemma wrap_val_idem: "wrap_val w h (wrap_val w h p) = wrap_val w h p"
  by (auto simp: wrap_val_def dest: flt_asym)

lemma SCREEN_floats:
  "float_of_int SCREEN_WIDTH = Fin 2560" "float_of_int SCREEN_HEIGHT = Fin 1440"
  "float_of_int 2560 = Fin 2560" "float_of_int 1440 = Fin 1440"
  by (simp_all add: float_of_int_def SCREEN_WIDTH_def SCREEN_HEIGHT_def)

text \<open>
  Claim C5 as stated fails: with the world extents 2560 and 1440, an active agent whose x is
  exactly 0 and whose y is exactly 1440 is left where it is by \<^verbatim>\<open>WrapAroundSystem\<close>; it is
  not moved to x = 2560 or to y = 0, because both comparisons are strict.
\<close>

theorem C5_counterexample:
  "WrapAroundSystem edge_pos two_ent 2 SCREEN_WIDTH SCREEN_HEIGHT 0 = \<lparr> vx = Fin 0, vy = Fin 1440 \<rparr>
   \<and> WrapAroundSystem edge_pos two_ent 2 SCREEN_WIDTH SCREEN_HEIGHT 0 \<noteq> \<lparr> vx = Fin 2560, vy = Fin 0 \<rparr>"
  by (simp add: WrapAroundSystem_eq wrap_val_def edge_pos_def two_ent_def SCREEN_floats)

text \<open>
  Claim C5, amended. For every active agent below \<open>count\<close>, each axis independently: a
  coordinate strictly below 0 becomes the world extent, a coordinate strictly above the extent
  becomes 0, and any other coordinate is kept; in particular a coordinate exactly at 0 or
  exactly at the extent is left unchanged. Agents that are inactive or not below \<open>count\<close> are
  untouched. Applying \<^verbatim>\<open>WrapAroundSystem\<close> a second time changes nothing.
\<close>

theorem C5_wrap:
  "WrapAroundSystem pos ent cnt w h i =
     (if i < cnt \<and> ent i then
        \<lparr> vx = (if flt (vx (pos i)) (Fin 0) then float_of_int w
                else if flt (float_of_int w) (vx (pos i)) then Fin 0 else vx (pos i)),
          vy = (if flt (vy (pos i)) (Fin 0) then float_of_int h
                else if flt (float_of_int h) (vy (pos i)) then Fin 0 else vy (pos i)) \<rparr>
      else pos i)
   \<and> (vx (pos i) = Fin 0 \<or> vx (pos i) = float_of_int w \<longrightarrow>
        vx (WrapAroundSystem pos ent cnt w h i) = vx (pos i))
   \<and> (vy (pos i) = Fin 0 \<or> vy (pos i) = float_of_int h \<longrightarrow>
        vy (WrapAroundSystem pos ent cnt w h i) = vy (pos i))
   \<and> WrapAroundSystem (WrapAroundSystem pos ent cnt w h) ent cnt w h
       = WrapAroundSystem pos ent cnt w h"
proof (intro conjI impI)
  show "WrapAroundSystem pos ent cnt w h i =
     (if i < cnt \<and> ent i then
        \<lparr> vx = (if flt (vx (pos i)) (Fin 0) then float_of_int w
                else if flt (float_of_int w) (vx (pos i)) then Fin 0 else vx (pos i)),
          vy = (if flt (vy (pos i)) (Fin 0) then float_of_int h
                else if flt (float_of_int h) (vy (pos i)) then Fin 0 else vy (pos i)) \<rparr>
      else pos i)"
    by (simp add: WrapAroundSystem_eq wrap_val_def)
  show "vx (WrapAroundSystem pos ent cnt w h i) = vx (pos i)"
    if "vx (pos i) = Fin 0 \<or> vx (pos i) = float_of_int w"
    using that by (auto simp: WrapAroundSystem_eq wrap_val_def dest: flt_asym)
  show "vy (WrapAroundSystem pos ent cnt w h i) = vy (pos i)"
    if "vy (pos i) = Fin 0 \<or> vy (pos i) = float_of_int h"
    using that by (auto simp: WrapAroundSystem_eq wrap_val_def dest: flt_asym)
  show "WrapAroundSystem (WrapAroundSystem pos ent cnt w h) ent cnt w h
       = WrapAroundSystem pos ent cnt w h"
    by (simp add: WrapAroundSystem_eq wrap_val_idem fun_eq_iff)
qed

theorem C5_wrap_witness:
  "WrapAroundSystem outside_pos two_ent 2 2560 1440 0 = \<lparr> vx = Fin 2560, vy = Fin 0 \<rparr>
   \<and> WrapAroundSystem (WrapAroundSystem outside_pos two_ent 2 2560 1440) two_ent 2 2560 1440
       = WrapAroundSystem outside_pos two_ent 2 2560 1440
   \<and> vx (edge_pos 0) = Fin 0 \<and> vy (edge_pos 0) = float_of_int 1440
   \<and> vx (WrapAroundSystem edge_pos two_ent 2 2560 1440 0) = Fin 0
   \<and> vy (WrapAroundSystem edge_pos two_ent 2 2560 1440 0) = Fin 1440"
  using C5_wrap [of outside_pos two_ent 2 2560 1440 0] C5_wrap [of edge_pos two_ent 2 2560 1440 0]
  by (simp add: outside_pos_def edge_pos_def two_ent_def SCREEN_floats)

section \<open>Entity creation\<close>

text \<open>
  Claim C7. Below capacity, \<^verbatim>\<open>CreateEntity\<close> returns the current entity count as the new
  id, marks that slot active, stores the given position, velocity and color there, sets its
  acceleration to (0, 0), increments the count and changes nothing else. At capacity
  (\<open>entityCount \<ge> MAX_ENTITIES\<close>) it returns -1 and the store is unchanged.
\<close>

theorem C7_CreateEntity:
  "(entityCount st < MAX_ENTITIES \<longrightarrow>
      fst (CreateEntity st p v c) = int (entityCount st)
    \<and> snd (CreateEntity st p v c) =
        st \<lparr> entities := (entities st) (entityCount st := True),
             positions := (positions st) (entityCount st := p),
             velocities := (velocities st) (entityCount st := v),
             accelerations := (accelerations st) (entityCount st := \<lparr> vx = Fin 0, vy = Fin 0 \<rparr>),
             colors := (colors st) (entityCount st := c),
             entityCount := entityCount st + 1 \<rparr>)
   \<and> (entityCount st \<ge> MAX_ENTITIES \<longrightarrow> CreateEntity st p v c = (- 1, st))"
  by (simp add: CreateEntity_def Let_def)


section \<open>Force systems\<close>

lemma for_each_Some:
  "(\<And>a s. \<exists>s'. f a s = Some s') \<Longrightarrow> \<exists>s'. for_each f as s = Some s'"
proof (induction as arbitrary: s)
  case Nil
  show ?case by simp
next
  case (Cons a as)
  obtain s' where "f a s = Some s'" using Cons.prems by blast
  then show ?case using Cons.IH [OF Cons.prems] by simp
qed

lemma for_each_skip:
  "(\<And>a. a \<in> set as \<Longrightarrow> f a s = Some s) \<Longrightarrow> for_each f as s = Some s"
  by (induction as) simp_all

lemma flt_zero_neq: "flt (Fin 0) b \<Longrightarrow> b \<noteq> Fin 0"
  by auto

lemma separation_candidate_Some: "\<exists>st'. separation_candidate pos ent params i j st = Some st'"
  by (cases st) (simp add: separation_candidate_def fdiv_def Let_def flt_zero_neq)

lemma alignment_candidate_Some: "\<exists>st'. alignment_candidate pos vel ent params i j st = Some st'"
  by (cases st) (simp add: alignment_candidate_def Let_def)

lemma cohesion_candidate_Some: "\<exists>st'. cohesion_candidate pos ent params i j st = Some st'"
  by (cases st) (simp add: cohesion_candidate_def Let_def)

lemma separation_sum_Some: "\<exists>s t. separation_sum grid pos ent params i = Some (s, t)"
  using for_each_Some [of "separation_candidate pos ent params i", OF separation_candidate_Some]
  unfolding separation_sum_def by (metis surj_pair)

lemma alignment_sum_Some: "\<exists>s t. alignment_sum grid pos vel ent params i = Some (s, t)"
  using for_each_Some [of "alignment_candidate pos vel ent params i", OF alignment_candidate_Some]
  unfolding alignment_sum_def by (metis surj_pair)

lemma cohesion_sum_Some: "\<exists>s t. cohesion_sum grid pos ent params i = Some (s, t)"
  using for_each_Some [of "cohesion_candidate pos ent params i", OF cohesion_candidate_Some]
  unfolding cohesion_sum_def by (metis surj_pair)

lemma fdiv_total: "0 < t \<Longrightarrow> fdiv a (float_of_int (int t)) = Some (fquot a (float_of_int (int t)))"
  using float_of_int_pos [of "int t"] by (simp add: fdiv_def)

lemma separation_agent_eq:
  "separation_agent grid pos vel ent params i acc =
     Some (if separation_adds grid pos ent params i
           then acc (i := Vector2Add (acc i) (separation_force grid pos vel ent params i))
           else acc)"
proof -
  obtain s t where st: "separation_sum grid pos ent params i = Some (s, t)"
    using separation_sum_Some by blast
  then have "for_each (separation_candidate pos ent params i)
       (QuerySpatialGrid grid (pos i) (separationRadius params) (int (MAX_ENTITIES_PER_CELL * 9)))
       (\<lparr> vx = Fin 0, vy = Fin 0 \<rparr>, 0) = Some (s, t)"
    by (simp add: separation_sum_def)
  then show ?thesis
    by (simp add: separation_agent_def separation_force_def separation_steer_def
          separation_adds_def st Let_def fdiv_total Vector2SetMag_val Vector2Limit_val
          scale_def averaged_def)
qed

lemma alignment_agent_eq:
  "alignment_agent grid pos vel ent params i acc =
     Some (if alignment_adds grid pos vel ent params i
           then acc (i := Vector2Add (acc i) (alignment_force grid pos vel ent params i))
           else acc)"
proof -
  obtain s t where st: "alignment_sum grid pos vel ent params i = Some (s, t)"
    using alignment_sum_Some by blast
  then have "for_each (alignment_candidate pos vel ent params i)
       (QuerySpatialGrid grid (pos i) (perceptionRadius params) (int (MAX_ENTITIES_PER_CELL * 9)))
       (\<lparr> vx = Fin 0, vy = Fin 0 \<rparr>, 0) = Some (s, t)"
    by (simp add: alignment_sum_def)
  then show ?thesis
    by (simp add: alignment_agent_def alignment_force_def alignment_steer_def
          alignment_adds_def st Let_def fdiv_total Vector2SetMag_val Vector2Limit_val
          scale_def averaged_def)
qed

lemma cohesion_agent_eq:
  "cohesion_agent grid pos vel ent params i acc =
     Some (if cohesion_adds grid pos ent params i
           then acc (i := Vector2Add (acc i) (cohesion_force grid pos vel ent params i))
           else acc)"
proof -
  obtain s t where st: "cohesion_sum grid pos ent params i = Some (s, t)"
    using cohesion_sum_Some by blast
  then have "for_each (cohesion_candidate pos ent params i)
       (QuerySpatialGrid grid (pos i) (perceptionRadius params) (int (MAX_ENTITIES_PER_CELL * 9)))
       (\<lparr> vx = Fin 0, vy = Fin 0 \<rparr>, 0) = Some (s, t)"
    by (simp add: cohesion_sum_def)
  then show ?thesis
    by (simp add: cohesion_agent_def cohesion_force_def cohesion_steer_def
          cohesion_adds_def st Let_def fdiv_total Vector2SetMag_val Vector2Limit_val
          scale_def averaged_def)
qed

lemma force_loop:
  assumes "\<And>i acc. f i acc = Some (if b i then acc (i := Vector2Add (acc i) (c i)) else acc)"
  shows "for_each f [0 ..< n] acc =
     Some (\<lambda>k. if k < n \<and> b k then Vector2Add (acc k) (c k) else acc k)"
proof -
  have "for_each f [0 ..< n] acc
      = Some (fold (\<lambda>i acc. if b i then acc (i := Vector2Add (acc i) (c i)) else acc) [0 ..< n] acc)"
    by (rule for_each_total) (rule assms)
  also have "fold (\<lambda>i acc. if b i then acc (i := Vector2Add (acc i) (c i)) else acc) [0 ..< n] acc
       = (\<lambda>k. if k < n then (if b k then Vector2Add (acc k) (c k) else acc k) else acc k)"
    by (rule fold_pointwise [where h = "\<lambda>i v. if b i then Vector2Add v (c i) else v"]) auto
  finally show ?thesis by (simp add: fun_eq_iff)
qed

lemma BoidSeparationSystem_eq:
  "BoidSeparationSystem grid pos vel acc ent cnt params =
     Some (\<lambda>k. if k < cnt \<and> separation_adds grid pos ent params k
               then Vector2Add (acc k) (separation_force grid pos vel ent params k) else acc k)"
  unfolding BoidSeparationSystem_def by (rule force_loop) (rule separation_agent_eq)

lemma BoidAlignmentSystem_eq:
  "BoidAlignmentSystem grid pos vel acc ent cnt params =
     Some (\<lambda>k. if k < cnt \<and> alignment_adds grid pos vel ent params k
               then Vector2Add (acc k) (alignment_force grid pos vel ent params k) else acc k)"
  unfolding BoidAlignmentSystem_def by (rule force_loop) (rule alignment_agent_eq)

lemma BoidCohesionSystem_eq:
  "BoidCohesionSystem grid pos vel acc ent cnt params =
     Some (\<lambda>k. if k < cnt \<and> cohesion_adds grid pos ent params k
               then Vector2Add (acc k) (cohesion_force grid pos vel ent params k) else acc k)"
  unfolding BoidCohesionSystem_def by (rule force_loop) (rule cohesion_agent_eq)

lemma separation_sum_none:
  assumes "qualifying grid pos ent i (separationRadius params) = []"
  shows "separation_sum grid pos ent params i = Some (\<lparr> vx = Fin 0, vy = Fin 0 \<rparr>, 0)"
  unfolding separation_sum_def
proof (rule for_each_skip)
  fix j assume "j \<in> set (QuerySpatialGrid grid (pos i) (separationRadius params) (int (MAX_ENTITIES_PER_CELL * 9)))"
  with assms have "\<not> (j \<noteq> i \<and> ent j \<and> flt (Vector2Distance (pos i) (pos j)) (separationRadius params))"
    by (auto simp: qualifying_def filter_empty_conv)
  then show "separation_candidate pos ent params i j (\<lparr> vx = Fin 0, vy = Fin 0 \<rparr>, 0) = Some (\<lparr> vx = Fin 0, vy = Fin 0 \<rparr>, 0)"
    by (auto simp: separation_candidate_def Let_def)
qed

lemma alignment_sum_none:
  assumes "qualifying grid pos ent i (perceptionRadius params) = []"
  shows "alignment_sum grid pos vel ent params i = Some (\<lparr> vx = Fin 0, vy = Fin 0 \<rparr>, 0)"
  unfolding alignment_sum_def
proof (rule for_each_skip)
  fix j assume "j \<in> set (QuerySpatialGrid grid (pos i) (perceptionRadius params) (int (MAX_ENTITIES_PER_CELL * 9)))"
  with assms have "\<not> (j \<noteq> i \<and> ent j \<and> flt (Vector2Distance (pos i) (pos j)) (perceptionRadius params))"
    by (auto simp: qualifying_def filter_empty_conv)
  then show "alignment_candidate pos vel ent params i j (\<lparr> vx = Fin 0, vy = Fin 0 \<rparr>, 0) = Some (\<lparr> vx = Fin 0, vy = Fin 0 \<rparr>, 0)"
    by (auto simp: alignment_candidate_def Let_def)
qed

lemma cohesion_sum_none:
  assumes "qualifying grid pos ent i (perceptionRadius params) = []"
  shows "cohesion_sum grid pos ent params i = Some (\<lparr> vx = Fin 0, vy = Fin 0 \<rparr>, 0)"
  unfolding cohesion_sum_def
proof (rule for_each_skip)
  fix j assume "j \<in> set (QuerySpatialGrid grid (pos i) (perceptionRadius params) (int (MAX_ENTITIES_PER_CELL * 9)))"
  with assms have "\<not> (j \<noteq> i \<and> ent j \<and> flt (Vector2Distance (pos i) (pos j)) (perceptionRadius params))"
    by (auto simp: qualifying_def filter_empty_conv)
  then show "cohesion_candidate pos ent params i j (\<lparr> vx = Fin 0, vy = Fin 0 \<rparr>, 0) = Some (\<lparr> vx = Fin 0, vy = Fin 0 \<rparr>, 0)"
    by (auto simp: cohesion_candidate_def Let_def)
qed

text \<open>
  Claim C6. If agent \<open>i\<close> has no qualifying neighbour for the separation radius, the
  separation system returns and leaves \<open>acc[i]\<close> exactly as it was; if it has none for the
  perception radius, the same holds for the alignment system and for the cohesion system.
\<close>

theorem C6_zero_neighbors:
  "(qualifying grid pos ent i (separationRadius params) = [] \<longrightarrow>
      (\<exists>acc'. BoidSeparationSystem grid pos vel acc ent cnt params = Some acc' \<and> acc' i = acc i))
   \<and> (qualifying grid pos ent i (perceptionRadius params) = [] \<longrightarrow>
      (\<exists>acc'. BoidAlignmentSystem grid pos vel acc ent cnt params = Some acc' \<and> acc' i = acc i)
      \<and> (\<exists>acc'. BoidCohesionSystem grid pos vel acc ent cnt params = Some acc' \<and> acc' i = acc i))"
  by (simp add: BoidSeparationSystem_eq BoidAlignmentSystem_eq BoidCohesionSystem_eq
        separation_adds_def alignment_adds_def cohesion_adds_def
        separation_sum_none alignment_sum_none cohesion_sum_none)

section \<open>Spatial grid: queries and rebuild\<close>

lemma length_cell_ids [simp]: "length (cell_ids c) = cell_count c"
  by (simp add: cell_ids_def)

lemma push_all:
  "fold (\<lambda>e out. if int (length out) < m then out @ [e] else out) es out
     = out @ take (nat m - length out) es"
proof (induction es arbitrary: out)
  case Nil
  show ?case by simp
next
  case (Cons e es)
  show ?case
  proof (cases "int (length out) < m")
    case True
    then have "nat m - length out = Suc (nat m - Suc (length out))" by linarith
    with True show ?thesis by (simp add: Cons.IH)
  next
    case False
    then have "nat m - length out = 0" by linarith
    with False show ?thesis by (simp add: Cons.IH)
  qed
qed

lemma collect_cell_eq:
  "collect_cell cell m out = out @ take (nat m - length out) (cell_ids cell)"
proof -
  have "collect_cell cell m out =
      fold ((\<lambda>e out. if int (length out) < m then out @ [e] else out) \<circ> cell_entities cell)
        [0 ..< cell_count cell] out"
    by (simp add: collect_cell_def comp_def)
  also have "\<dots> = fold (\<lambda>e out. if int (length out) < m then out @ [e] else out) (cell_ids cell) out"
    by (simp add: cell_ids_def fold_map)
  finally show ?thesis by (simp add: push_all)
qed

lemma fold_take_concat:
  assumes "\<And>a out. f a out = out @ take (n - length out) (g a)"
  shows "fold f as out = out @ take (n - length out) (concat (map g as))"
proof (induction as arbitrary: out)
  case Nil
  show ?case by simp
next
  case (Cons a as)
  have "fold f (a # as) out = fold f as (out @ take (n - length out) (g a))"
    by (simp add: assms)
  also have "\<dots> = (out @ take (n - length out) (g a))
       @ take (n - length (out @ take (n - length out) (g a))) (concat (map g as))"
    by (rule Cons.IH)
  also have "\<dots> = out @ take (n - length out) (g a @ concat (map g as))"
    by (simp add: min_def) 
  finally show ?case by simp
qed

lemma QuerySpatialGrid_eq:
  "QuerySpatialGrid grid pos radius m = take (nat m) (stored grid pos radius)"
proof -
  have row: "\<And>y out. fold (\<lambda>x out. collect_cell (cells grid x y) m out) (query_xs pos radius) out
      = out @ take (nat m - length out) (concat (map (\<lambda>x. cell_ids (cells grid x y)) (query_xs pos radius)))"
    by (rule fold_take_concat) (rule collect_cell_eq)
  have "QuerySpatialGrid grid pos radius m =
      fold (\<lambda>y out. fold (\<lambda>x out. collect_cell (cells grid x y) m out) (query_xs pos radius) out)
        (query_ys pos radius) []"
    by (simp add: QuerySpatialGrid_def query_xs_def query_ys_def Let_def)
  also have "\<dots> = [] @ take (nat m - length ([]::nat list)) (stored grid pos radius)"
    unfolding stored_def by (rule fold_take_concat) (rule row)
  finally show ?thesis by simp
qed

lemma AddToSpatialGrid_eq:
  "AddToSpatialGrid grid ident pos =
     (case grid_cell_of pos of (gx, gy) \<Rightarrow>
        if cell_count (cells grid gx gy) < MAX_ENTITIES_PER_CELL then
          grid \<lparr> cells := (cells grid) (gx := (cells grid gx) (gy :=
            (cells grid gx gy) \<lparr> cell_entities := (cell_entities (cells grid gx gy)) (cell_count (cells grid gx gy) := ident),
                   cell_count := cell_count (cells grid gx gy) + 1 \<rparr>)) \<rparr>
        else grid)"
  by (simp add: AddToSpatialGrid_def grid_cell_of_def Let_def)

lemma cell_ids_AddToSpatialGrid:
  "cell_ids (cells (AddToSpatialGrid grid ident pos) x y) =
     (if grid_cell_of pos = (x, y) \<and> cell_count (cells grid x y) < MAX_ENTITIES_PER_CELL
      then cell_ids (cells grid x y) @ [ident] else cell_ids (cells grid x y))"
  by (cases "grid_cell_of pos") (auto simp: AddToSpatialGrid_eq cell_ids_def)

lemma cell_ids_Clear [simp]: "cell_ids (cells (ClearSpatialGrid grid) x y) = []"
  by (simp add: ClearSpatialGrid_def cell_ids_def)

lemma SpatialGridUpdateSystem_Suc:
  "SpatialGridUpdateSystem grid pos ent (Suc n) =
     (if \<not> ent n then SpatialGridUpdateSystem grid pos ent n
      else AddToSpatialGrid (SpatialGridUpdateSystem grid pos ent n) n (pos n))"
  by (simp add: SpatialGridUpdateSystem_def)

lemma cell_ids_SpatialGridUpdateSystem:
  "cell_ids (cells (SpatialGridUpdateSystem grid pos ent cnt) x y)
     = take MAX_ENTITIES_PER_CELL (cell_members pos ent cnt x y)"
proof (induction cnt)
  case 0
  show ?case by (simp add: SpatialGridUpdateSystem_def cell_members_def)
next
  case (Suc n)
  have len: "cell_count (cells (SpatialGridUpdateSystem grid pos ent n) x y)
      = min (length (cell_members pos ent n x y)) MAX_ENTITIES_PER_CELL"
    using arg_cong [OF Suc.IH, of length] by simp
  show ?case
    by (auto simp: SpatialGridUpdateSystem_Suc cell_ids_AddToSpatialGrid Suc.IH len cell_members_def)
qed


lemma clamp_in_range:
  fixes g lo hi w :: int
  assumes "lo \<le> g" "g \<le> hi" "0 \<le> hi" "lo < w" "0 < w"
  shows "(if (if g < 0 then 0 else g) \<ge> w then w - 1 else (if g < 0 then 0 else g))
           \<in> set [(if lo < 0 then 0 else lo) .. (if hi \<ge> w then w - 1 else hi)]"
  using assms by auto

lemma set_stored:
  "set (stored grid p r) = (\<Union>y \<in> set (query_ys p r). \<Union>x \<in> set (query_xs p r). set (cell_ids (cells grid x y)))"
  by (auto simp: stored_def)

lemma set_Query_subset: "set (QuerySpatialGrid grid p r m) \<subseteq> set (stored grid p r)"
  by (simp add: QuerySpatialGrid_eq set_take_subset)

lemma Query_not_full:
  "int (length (QuerySpatialGrid grid p r m)) < m \<Longrightarrow> QuerySpatialGrid grid p r m = stored grid p r"
  by (simp add: QuerySpatialGrid_eq min_def split: if_splits)


lemma members_facts:
  "j \<in> set (cell_members pos ent cnt x y) \<longleftrightarrow> j < cnt \<and> ent j \<and> grid_cell_of (pos j) = (x, y)"
  by (auto simp: cell_members_def)

lemma distinct_members: "distinct (cell_members pos ent cnt x y)"
  by (simp add: cell_members_def)

lemma slot_in_cell_ids: "k < cell_count c \<Longrightarrow> cell_entities c k = cell_ids c ! k"
  by (simp add: cell_ids_def)

text \<open>
  Claim C10. After \<^verbatim>\<open>SpatialGridUpdateSystem\<close>, every id held in a used slot of any cell
  is below \<open>count\<close> and is the index of an active agent, the cell is the clamped cell of
  that agent's position, and the id occupies no other slot of the grid; hence every id a
  query returns is below \<open>count\<close> and active.
\<close>

theorem C10_grid_rebuild:
  "let g = SpatialGridUpdateSystem grid pos ent cnt in
     (\<forall>x y k. k < cell_count (cells g x y) \<longrightarrow>
        (let ident = cell_entities (cells g x y) k in
           ident < cnt \<and> ent ident \<and> grid_cell_of (pos ident) = (x, y)
           \<and> (\<forall>x' y' k'. k' < cell_count (cells g x' y') \<and> cell_entities (cells g x' y') k' = ident
                 \<longrightarrow> x' = x \<and> y' = y \<and> k' = k)))
     \<and> (\<forall>ident \<in> set (QuerySpatialGrid g p r m). ident < cnt \<and> ent ident)"
proof -
  define g where "g = SpatialGridUpdateSystem grid pos ent cnt"
  have ids: "\<And>x y. cell_ids (cells g x y) = take MAX_ENTITIES_PER_CELL (cell_members pos ent cnt x y)"
    unfolding g_def by (rule cell_ids_SpatialGridUpdateSystem)
  have mem: "j < cnt \<and> ent j \<and> grid_cell_of (pos j) = (x, y)"
    if "j \<in> set (cell_ids (cells g x y))" for x y j
  proof -
    from that have "j \<in> set (cell_members pos ent cnt x y)"
      unfolding ids by (rule in_set_takeD)
    then show ?thesis by (simp only: members_facts)
  qed
  have dist: "\<And>x y. distinct (cell_ids (cells g x y))"
    unfolding ids by (simp add: distinct_members)
  have slot: "\<And>x y k. k < cell_count (cells g x y) \<Longrightarrow> cell_entities (cells g x y) k \<in> set (cell_ids (cells g x y))"
    by (simp add: slot_in_cell_ids)
  have A: "ident < cnt \<and> ent ident \<and> grid_cell_of (pos ident) = (x, y)
           \<and> (\<forall>x' y' k'. k' < cell_count (cells g x' y') \<and> cell_entities (cells g x' y') k' = ident
                 \<longrightarrow> x' = x \<and> y' = y \<and> k' = k)"
    if k: "k < cell_count (cells g x y)" and ident: "ident = cell_entities (cells g x y) k" for x y k ident
  proof -
    have m: "ident < cnt \<and> ent ident \<and> grid_cell_of (pos ident) = (x, y)"
      using mem [OF slot [OF k]] ident by simp
    have "x' = x \<and> y' = y \<and> k' = k"
      if k': "k' < cell_count (cells g x' y')" and e: "cell_entities (cells g x' y') k' = ident" for x' y' k'
    proof -
      have "grid_cell_of (pos ident) = (x', y')" using mem [OF slot [OF k']] e by simp
      with m have xy: "x' = x" "y' = y" by simp_all
      have "cell_ids (cells g x y) ! k' = cell_ids (cells g x y) ! k"
        using k k' e ident xy by (simp add: slot_in_cell_ids)
      then have "k' = k" using dist [of x y] k k' xy by (simp add: nth_eq_iff_index_eq)
      with xy show ?thesis by simp
    qed
    with m show ?thesis by blast
  qed
  have B: "ident < cnt \<and> ent ident" if "ident \<in> set (QuerySpatialGrid g p r m)" for ident
  proof -
    from that have "ident \<in> set (stored g p r)" using set_Query_subset by blast
    then obtain x y where "ident \<in> set (cell_ids (cells g x y))" unfolding set_stored by blast
    from mem [OF this] show ?thesis by simp
  qed
  show ?thesis
    unfolding g_def [symmetric] Let_def
  proof (rule conjI)
    show "\<forall>x y k. k < cell_count (cells g x y) \<longrightarrow>
        cell_entities (cells g x y) k < cnt \<and> ent (cell_entities (cells g x y) k)
        \<and> grid_cell_of (pos (cell_entities (cells g x y) k)) = (x, y)
        \<and> (\<forall>x' y' k'. k' < cell_count (cells g x' y')
               \<and> cell_entities (cells g x' y') k' = cell_entities (cells g x y) k
             \<longrightarrow> x' = x \<and> y' = y \<and> k' = k)"
    proof (intro allI impI)
      fix x y k
      assume "k < cell_count (cells g x y)"
      from A [OF this refl]
      show "cell_entities (cells g x y) k < cnt \<and> ent (cell_entities (cells g x y) k)
        \<and> grid_cell_of (pos (cell_entities (cells g x y) k)) = (x, y)
        \<and> (\<forall>x' y' k'. k' < cell_count (cells g x' y')
               \<and> cell_entities (cells g x' y') k' = cell_entities (cells g x y) k
             \<longrightarrow> x' = x \<and> y' = y \<and> k' = k)" .
    qed
    show "\<forall>ident \<in> set (QuerySpatialGrid g p r m). ident < cnt \<and> ent ident"
      using B by (intro ballI)
  qed
qed

lemma members_split:
  assumes "i < cnt" "ent i" "grid_cell_of (pos i) = (x, y)"
  shows "cell_members pos ent cnt x y =
     cell_members pos ent i x y @ i # filter (\<lambda>j. ent j \<and> grid_cell_of (pos j) = (x, y)) [Suc i ..< cnt]"
proof -
  have "[0 ..< i + (cnt - i)] = [0 ..< i] @ [i ..< i + (cnt - i)]"
    by (rule upt_add_eq_append) simp
  then have "[0 ..< cnt] = [0 ..< i] @ [i ..< cnt]"
    using assms(1) by simp
  also have "[i ..< cnt] = i # [Suc i ..< cnt]"
    using assms(1) by (rule upt_conv_Cons)
  finally have "[0 ..< cnt] = [0 ..< i] @ i # [Suc i ..< cnt]" .
  then show ?thesis using assms(2,3) by (simp add: cell_members_def)
qed

text \<open>
  Claim C8. \<^verbatim>\<open>AddToSpatialGrid\<close> on a position whose cell already holds
  \<open>MAX_ENTITIES_PER_CELL\<close> ids returns the grid unchanged (and it has no way to signal
  anything). During a rebuild, an active agent that finds its cell full when its turn comes
  is returned by no query on the rebuilt grid, whatever the centre, radius and result limit.
\<close>

theorem C8_full_cell:
  "(MAX_ENTITIES_PER_CELL \<le> cell_count (cells grid (fst (grid_cell_of pos)) (snd (grid_cell_of pos)))
      \<longrightarrow> AddToSpatialGrid grid ident pos = grid)
   \<and> (i < cnt \<and> ent i
       \<and> MAX_ENTITIES_PER_CELL \<le> cell_count (cells (SpatialGridUpdateSystem grid ps ent i)
             (fst (grid_cell_of (ps i))) (snd (grid_cell_of (ps i))))
      \<longrightarrow> (\<forall>p r m. i \<notin> set (QuerySpatialGrid (SpatialGridUpdateSystem grid ps ent cnt) p r m)))"
proof (intro conjI impI allI)
  assume "MAX_ENTITIES_PER_CELL \<le> cell_count (cells grid (fst (grid_cell_of pos)) (snd (grid_cell_of pos)))"
  then show "AddToSpatialGrid grid ident pos = grid"
    by (cases "grid_cell_of pos") (simp add: AddToSpatialGrid_eq)
next
  fix p r m
  assume h: "i < cnt \<and> ent i
       \<and> MAX_ENTITIES_PER_CELL \<le> cell_count (cells (SpatialGridUpdateSystem grid ps ent i)
             (fst (grid_cell_of (ps i))) (snd (grid_cell_of (ps i))))"
  obtain gx gy where c: "grid_cell_of (ps i) = (gx, gy)" by (cases "grid_cell_of (ps i)")
  have "cell_count (cells (SpatialGridUpdateSystem grid ps ent i) gx gy)
      = min (length (cell_members ps ent i gx gy)) MAX_ENTITIES_PER_CELL"
    using arg_cong [OF cell_ids_SpatialGridUpdateSystem [of grid ps ent i gx gy], of length] by simp
  with h c have full: "MAX_ENTITIES_PER_CELL \<le> length (cell_members ps ent i gx gy)" by simp
  show "i \<notin> set (QuerySpatialGrid (SpatialGridUpdateSystem grid ps ent cnt) p r m)"
  proof
    assume "i \<in> set (QuerySpatialGrid (SpatialGridUpdateSystem grid ps ent cnt) p r m)"
    then have "i \<in> set (stored (SpatialGridUpdateSystem grid ps ent cnt) p r)"
      using set_Query_subset by blast
    then obtain x y where xy: "i \<in> set (take MAX_ENTITIES_PER_CELL (cell_members ps ent cnt x y))"
      unfolding set_stored cell_ids_SpatialGridUpdateSystem by blast
    then have "i \<in> set (cell_members ps ent cnt x y)" using set_take_subset by fast
    then have "grid_cell_of (ps i) = (x, y)" by (simp add: members_facts)
    with c have "x = gx" "y = gy" by simp_all
    with xy have "i \<in> set (take MAX_ENTITIES_PER_CELL (cell_members ps ent cnt gx gy))" by simp
    also have "take MAX_ENTITIES_PER_CELL (cell_members ps ent cnt gx gy)
        = take MAX_ENTITIES_PER_CELL (cell_members ps ent i gx gy)"
      using full h c by (simp add: members_split [of i cnt ent ps gx gy])
    finally have "i \<in> set (cell_members ps ent i gx gy)" using set_take_subset by fast
    then show False by (simp add: members_facts)
  qed
qed

section \<open>Counting the stored ids\<close>

lemma sum_list_indicator_le:
  "distinct xs \<Longrightarrow> (\<Sum>x\<leftarrow>xs. if x = c \<and> b then 1 else 0) \<le> (if b then 1 else (0::nat))"
  by (induction xs) auto

lemma count_in_cells:
  assumes "distinct xs" "distinct ys"
  shows "(\<Sum>y\<leftarrow>ys. \<Sum>x\<leftarrow>xs. if (cx, cy) = (x, y) \<and> b then 1 else 0) \<le> (1::nat)"
proof -
  have "(\<Sum>y\<leftarrow>ys. \<Sum>x\<leftarrow>xs. if (cx, cy) = (x, y) \<and> b then 1 else 0)
      = (\<Sum>y\<leftarrow>ys. \<Sum>x\<leftarrow>xs. if x = cx \<and> (y = cy \<and> b) then 1 else (0::nat))"
    by (rule arg_cong [where f = sum_list]) (auto intro!: map_cong arg_cong [where f = sum_list])
  also have "\<dots> \<le> (\<Sum>y\<leftarrow>ys. if y = cy \<and> b then 1 else (0::nat))"
    by (rule sum_list_mono) (rule sum_list_indicator_le [OF assms(1)])
  also have "\<dots> \<le> (if b then 1 else 0)"
    by (rule sum_list_indicator_le [OF assms(2)])
  finally show ?thesis by (simp split: if_splits)
qed

lemma members_total:
  assumes "distinct xs" "distinct ys"
  shows "(\<Sum>y\<leftarrow>ys. \<Sum>x\<leftarrow>xs. length (filter (\<lambda>j. ent j \<and> grid_cell_of (pos j) = (x, y)) js))
           \<le> length js"
proof (induction js)
  case Nil
  show ?case by simp
next
  case (Cons j js)
  have "(\<Sum>y\<leftarrow>ys. \<Sum>x\<leftarrow>xs. length (filter (\<lambda>j. ent j \<and> grid_cell_of (pos j) = (x, y)) (j # js)))
      = (\<Sum>y\<leftarrow>ys. \<Sum>x\<leftarrow>xs. (if grid_cell_of (pos j) = (x, y) \<and> ent j then 1 else 0)
            + length (filter (\<lambda>j. ent j \<and> grid_cell_of (pos j) = (x, y)) js))"
    by (rule arg_cong [where f = sum_list]) (auto intro!: map_cong arg_cong [where f = sum_list])
  also have "\<dots> = (\<Sum>y\<leftarrow>ys. \<Sum>x\<leftarrow>xs. if grid_cell_of (pos j) = (x, y) \<and> ent j then 1 else 0)
      + (\<Sum>y\<leftarrow>ys. \<Sum>x\<leftarrow>xs. length (filter (\<lambda>j. ent j \<and> grid_cell_of (pos j) = (x, y)) js))"
    by (simp add: sum_list_addf)
  also have "\<dots> \<le> 1 + length js"
    using count_in_cells [OF assms, of "fst (grid_cell_of (pos j))" "snd (grid_cell_of (pos j))" "ent j"]
      Cons.IH
    by (simp add: add_mono)
  finally show ?case by simp
qed

lemma distinct_query_xs: "distinct (query_xs p r)"
  by (simp add: query_xs_def Let_def)

lemma distinct_query_ys: "distinct (query_ys p r)"
  by (simp add: query_ys_def Let_def)

lemma length_stored_le:
  "length (stored (SpatialGridUpdateSystem grid pos ent cnt) p r) \<le> cnt"
proof -
  have "length (stored (SpatialGridUpdateSystem grid pos ent cnt) p r)
      = (\<Sum>y\<leftarrow>query_ys p r. \<Sum>x\<leftarrow>query_xs p r.
           length (take MAX_ENTITIES_PER_CELL (cell_members pos ent cnt x y)))"
    by (simp add: stored_def length_concat comp_def cell_ids_SpatialGridUpdateSystem)
  also have "\<dots> \<le> (\<Sum>y\<leftarrow>query_ys p r. \<Sum>x\<leftarrow>query_xs p r. length (cell_members pos ent cnt x y))"
    by (intro sum_list_mono) simp
  also have "\<dots> \<le> length [0 ..< cnt]"
    unfolding cell_members_def by (rule members_total [OF distinct_query_xs distinct_query_ys])
  finally show ?thesis by simp
qed

lemma Query_rebuild:
  assumes "int cnt \<le> m"
  shows "QuerySpatialGrid (SpatialGridUpdateSystem grid pos ent cnt) p r m
     = stored (SpatialGridUpdateSystem grid pos ent cnt) p r"
  using length_stored_le [of grid pos ent cnt p r] assms
  by (simp add: QuerySpatialGrid_eq)

lemma stored_rebuild_ids:
  "j \<in> set (stored (SpatialGridUpdateSystem grid pos ent cnt) p r) \<Longrightarrow> j < cnt \<and> ent j"
proof -
  assume "j \<in> set (stored (SpatialGridUpdateSystem grid pos ent cnt) p r)"
  then obtain x y where "j \<in> set (take MAX_ENTITIES_PER_CELL (cell_members pos ent cnt x y))"
    unfolding set_stored cell_ids_SpatialGridUpdateSystem by blast
  then have "j \<in> set (cell_members pos ent cnt x y)" by (rule in_set_takeD)
  then show ?thesis by (simp only: members_facts)
qed

section \<open>Queries find the agents within the radius\<close>

lemma CELL_SIZE_float [simp]: "float_of_int CELL_SIZE = Fin 50"
  by (simp add: float_of_int_def CELL_SIZE_def)

lemma float_to_int_mono:
  "a \<le> b \<Longrightarrow> - 2147483649 < a \<Longrightarrow> b < 2147483648 \<Longrightarrow> float_to_int (Fin a) \<le> float_to_int (Fin b)"
proof -
  assume ab: "a \<le> b" and lo: "- 2147483649 < a" and hi: "b < 2147483648"
  have ra: "- 2147483649 < a \<and> a < 2147483648" using ab lo hi by linarith
  have rb: "- 2147483649 < b \<and> b < 2147483648" using ab lo hi by linarith
  have "(if 0 \<le> a then \<lfloor>a\<rfloor> else \<lceil>a\<rceil>) \<le> (if 0 \<le> b then \<lfloor>b\<rfloor> else \<lceil>b\<rceil>)"
  proof (cases "0 \<le> a")
    case True
    with ab have "0 \<le> b" by linarith
    with True ab show ?thesis by (simp add: floor_mono)
  next
    case False
    show ?thesis
    proof (cases "0 \<le> b")
      case True
      from False have "\<lceil>a\<rceil> \<le> (0::int)" by (simp add: ceiling_le_iff)
      also from True have "(0::int) \<le> \<lfloor>b\<rfloor>" by simp
      finally have "\<lceil>a\<rceil> \<le> \<lfloor>b\<rfloor>" .
      then show ?thesis using False True by (simp only: if_True if_False)
    next
      case b: False
      from ab have "\<lceil>a\<rceil> \<le> \<lceil>b\<rceil>" by (rule ceiling_mono)
      then show ?thesis using False b by (simp only: if_True if_False)
    qed
  qed
  then show ?thesis using ra rb by (simp add: float_to_int_def)
qed

lemma float_to_int_nonneg: "0 \<le> a \<Longrightarrow> a < 2147483648 \<Longrightarrow> 0 \<le> float_to_int (Fin a)"
  by (simp add: float_to_int_def)

lemma float_to_int_less:
  "a < real_of_int n \<Longrightarrow> 0 < n \<Longrightarrow> float_to_int (Fin a) < n"
proof -
  assume a: "a < real_of_int n" and n: "0 < n"
  have "(if 0 \<le> a then \<lfloor>a\<rfloor> else \<lceil>a\<rceil>) < n"
  proof (cases "0 \<le> a")
    case True
    from a have "\<lfloor>a\<rfloor> < n" by (simp add: floor_less_iff)
    then show ?thesis using True by (simp only: if_True)
  next
    case False
    then have "\<lceil>a\<rceil> \<le> (0::int)" by (simp add: ceiling_le_iff)
    with n have "\<lceil>a\<rceil> < n" by linarith
    then show ?thesis using False by (simp only: if_False)
  qed
  then show ?thesis using n by (simp add: float_to_int_def)
qed

lemma float_to_int_eq:
  "real_of_int n \<le> a \<Longrightarrow> a < real_of_int n + 1 \<Longrightarrow> 0 \<le> n \<Longrightarrow> n < 2147483647
   \<Longrightarrow> float_to_int (Fin a) = n"
proof -
  assume 1: "real_of_int n \<le> a" and 2: "a < real_of_int n + 1" and 3: "0 \<le> n" and 4: "n < 2147483647"
  have f: "\<lfloor>a\<rfloor> = n" using 1 2 by linarith
  have a0: "0 \<le> a" using 1 3 by simp
  have "real_of_int n < 2147483647" using 4 by simp
  then have "a < 2147483648" using 2 by linarith
  then show ?thesis using a0 f by (simp add: float_to_int_def)
qed

text \<open>The float quotient by the cell size, for operands of moderate size.\<close>

lemma cell_quot:
  assumes "\<bar>x\<bar> \<le> 2 ^ 31"
  shows "fquot (Fin x) (float_of_int CELL_SIZE) = Fin (rounded (x / 50))"
    and "\<bar>rounded (x / 50)\<bar> \<le> 2 ^ 26"
proof -
  have "\<bar>x / 50\<bar> = \<bar>x\<bar> / 50" by simp
  also have "\<dots> \<le> 2 ^ 31 / 50" using assms by (simp add: divide_right_mono)
  also have "\<dots> \<le> 2 ^ 26" by simp
  finally have b: "\<bar>x / 50\<bar> \<le> 2 ^ 26" .
  from rnd_bounded [OF b] show "fquot (Fin x) (float_of_int CELL_SIZE) = Fin (rounded (x / 50))"
    and "\<bar>rounded (x / 50)\<bar> \<le> 2 ^ 26" by simp_all
qed

lemma cell_mono:
  assumes "x \<le> y" "\<bar>x\<bar> \<le> 2 ^ 31" "\<bar>y\<bar> \<le> 2 ^ 31"
  shows "float_to_int (fquot (Fin x) (float_of_int CELL_SIZE))
           \<le> float_to_int (fquot (Fin y) (float_of_int CELL_SIZE))"
proof -
  have "x / 50 \<le> y / 50" using assms(1) by simp
  then have m: "rounded (x / 50) \<le> rounded (y / 50)" by (rule rounded_mono)
  have "- 2147483649 < rounded (x / 50)" using cell_quot(2) [OF assms(2)] by (simp add: abs_le_iff)
  moreover have "rounded (y / 50) < 2147483648" using cell_quot(2) [OF assms(3)] by (simp add: abs_le_iff)
  ultimately show ?thesis
    unfolding cell_quot(1) [OF assms(2)] cell_quot(1) [OF assms(3)]
    using m by (intro float_to_int_mono)
qed

lemma sum_small:
  assumes "\<bar>c\<bar> \<le> 2 ^ 30" "\<bar>r\<bar> \<le> 2 ^ 30"
  shows "fadd (Fin c) (Fin r) = Fin (rounded (c + r))" "\<bar>rounded (c + r)\<bar> \<le> 2 ^ 31"
    and "fsub (Fin c) (Fin r) = Fin (rounded (c - r))" "\<bar>rounded (c - r)\<bar> \<le> 2 ^ 31"
proof -
  have a: "\<bar>c + r\<bar> \<le> 2 ^ 31" and s: "\<bar>c - r\<bar> \<le> 2 ^ 31" using assms by (simp_all add: abs_le_iff)
  from rnd_bounded [OF a] show "fadd (Fin c) (Fin r) = Fin (rounded (c + r))"
    "\<bar>rounded (c + r)\<bar> \<le> 2 ^ 31" by simp_all
  from rnd_bounded [OF s] show "fsub (Fin c) (Fin r) = Fin (rounded (c - r))"
    "\<bar>rounded (c - r)\<bar> \<le> 2 ^ 31" by (simp_all add: fsub_def)
qed

text \<open>
  One axis: the clamped cell coordinate of an agent lies in the clamped range of cell
  coordinates of a query whose interval contains the agent's coordinate and meets the world.
\<close>

lemma axis_in_query:
  fixes N :: int
  assumes d: "\<bar>c - q\<bar> \<le> r"
    and c: "\<bar>c\<bar> \<le> 2 ^ 30" and r: "r \<le> 2 ^ 30"
    and lo: "0 \<le> c + r" and hi: "c - r \<le> 50 * real_of_int N - 25 / 4"
    and q: "is_float (Fin q)"
    and N: "0 < N" "N \<le> 2 ^ 16"
  shows "(if (if float_to_int (fquot (Fin q) (float_of_int CELL_SIZE)) < 0 then 0
              else float_to_int (fquot (Fin q) (float_of_int CELL_SIZE))) \<ge> N
          then N - 1
          else (if float_to_int (fquot (Fin q) (float_of_int CELL_SIZE)) < 0 then 0
                else float_to_int (fquot (Fin q) (float_of_int CELL_SIZE))))
         \<in> set [(if float_to_int (fquot (fsub (Fin c) (Fin r)) (float_of_int CELL_SIZE)) < 0 then 0
                  else float_to_int (fquot (fsub (Fin c) (Fin r)) (float_of_int CELL_SIZE)))
                 .. (if float_to_int (fquot (fadd (Fin c) (Fin r)) (float_of_int CELL_SIZE)) \<ge> N
                     then N - 1
                     else float_to_int (fquot (fadd (Fin c) (Fin r)) (float_of_int CELL_SIZE)))]"
proof -
  have r0: "0 \<le> r" using d by linarith
  then have ar: "\<bar>r\<bar> \<le> 2 ^ 30" using r by simp
  note s = sum_small [OF c ar]
  have rq: "rounded q = q" using q by (simp add: is_float_Fin)
  have ql: "rounded (c - r) \<le> q" using d by (intro rounded_le rq) linarith
  have qh: "q \<le> rounded (c + r)" using d by (intro rounded_ge rq) linarith
  have aq: "\<bar>q\<bar> \<le> 2 ^ 31" using ql qh s(2,4) by (simp add: abs_le_iff)
  define L where "L = float_to_int (fquot (fsub (Fin c) (Fin r)) (float_of_int CELL_SIZE))"
  define G where "G = float_to_int (fquot (Fin q) (float_of_int CELL_SIZE))"
  define H where "H = float_to_int (fquot (fadd (Fin c) (Fin r)) (float_of_int CELL_SIZE))"
  have LG: "L \<le> G" unfolding L_def G_def s(3) by (rule cell_mono [OF ql s(4) aq])
  have GH: "G \<le> H" unfolding G_def H_def s(1) by (rule cell_mono [OF qh aq s(2)])
  have "0 \<le> rounded (c + r)" using lo by (rule rounded_nonneg)
  then have "0 \<le> rounded (c + r) / 50" by simp
  then have "0 \<le> rounded (rounded (c + r) / 50)" by (rule rounded_nonneg)
  moreover have "rounded (rounded (c + r) / 50) < 2147483648"
    using cell_quot(2) [OF s(2)] by (simp add: abs_le_iff)
  ultimately have H0: "0 \<le> H"
    unfolding H_def s(1) cell_quot(1) [OF s(2)] by (rule float_to_int_nonneg)
  have m1: "\<bar>200 * N - 25\<bar> < 2 ^ 24" and m2: "\<bar>8 * N - 1\<bar> < 2 ^ 24" using N by simp_all
  have q1: "50 * real_of_int N - 25 / 4 = real_of_int (200 * N - 25) / 2 ^ 2" by simp
  have e1: "rounded (50 * real_of_int N - 25 / 4) = 50 * real_of_int N - 25 / 4"
    unfolding q1 using m1 by (rule rounded_dyadic) simp
  have q2: "real_of_int N - 1 / 8 = real_of_int (8 * N - 1) / 2 ^ 3" by simp
  have e2: "rounded (real_of_int N - 1 / 8) = real_of_int N - 1 / 8"
    unfolding q2 using m2 by (rule rounded_dyadic) simp
  have "rounded (c - r) \<le> 50 * real_of_int N - 25 / 4" using hi e1 by (rule rounded_le)
  then have "rounded (c - r) / 50 \<le> real_of_int N - 1 / 8" by simp
  then have "rounded (rounded (c - r) / 50) \<le> real_of_int N - 1 / 8" using e2 by (rule rounded_le)
  then have "rounded (rounded (c - r) / 50) < real_of_int N" by simp
  then have L1: "L < N" unfolding L_def s(3) cell_quot(1) [OF s(4)] using N(1) by (rule float_to_int_less)
  show ?thesis
    unfolding L_def [symmetric] G_def [symmetric] H_def [symmetric]
    by (rule clamp_in_range [OF LG GH H0 L1 N(1)])
qed

lemma abs_le_norm:
  "\<bar>a\<bar> \<le> sqrt (a\<^sup>2 + b\<^sup>2)" "\<bar>b\<bar> \<le> sqrt (a\<^sup>2 + b\<^sup>2)"
proof -
  have "\<bar>a\<bar> = sqrt (a\<^sup>2)" by simp
  also have "\<dots> \<le> sqrt (a\<^sup>2 + b\<^sup>2)" by (rule real_sqrt_le_mono) simp
  finally show "\<bar>a\<bar> \<le> sqrt (a\<^sup>2 + b\<^sup>2)" .
  have "\<bar>b\<bar> = sqrt (b\<^sup>2)" by simp
  also have "\<dots> \<le> sqrt (a\<^sup>2 + b\<^sup>2)" by (rule real_sqrt_le_mono) simp
  finally show "\<bar>b\<bar> \<le> sqrt (a\<^sup>2 + b\<^sup>2)" .
qed

lemma cell_in_query_xs:
  assumes "\<bar>px - qx\<bar> \<le> r" "\<bar>px\<bar> \<le> 2 ^ 30" "r \<le> 2 ^ 30"
    and "0 \<le> px + r" "px - r \<le> real_of_int SCREEN_WIDTH" "is_float (Fin qx)"
  shows "fst (grid_cell_of \<lparr> vx = Fin qx, vy = qy \<rparr>) \<in> set (query_xs \<lparr> vx = Fin px, vy = py \<rparr> (Fin r))"
proof -
  have hi: "px - r \<le> 50 * real_of_int GRID_WIDTH - 25 / 4"
    using assms(5) by (simp add: GRID_WIDTH_def SCREEN_WIDTH_def CELL_SIZE_def)
  have N: "0 < GRID_WIDTH" "GRID_WIDTH \<le> 2 ^ 16"
    by (simp_all add: GRID_WIDTH_def SCREEN_WIDTH_def CELL_SIZE_def)
  show ?thesis
    unfolding grid_cell_of_def query_xs_def Let_def fst_conv Vector2.simps
    by (rule axis_in_query [OF assms(1-4) hi assms(6) N])
qed

lemma cell_in_query_ys:
  assumes "\<bar>py - qy\<bar> \<le> r" "\<bar>py\<bar> \<le> 2 ^ 30" "r \<le> 2 ^ 30"
    and "0 \<le> py + r" "py - r \<le> real_of_int SCREEN_HEIGHT" "is_float (Fin qy)"
  shows "snd (grid_cell_of \<lparr> vx = qx, vy = Fin qy \<rparr>) \<in> set (query_ys \<lparr> vx = px, vy = Fin py \<rparr> (Fin r))"
proof -
  have hi: "py - r \<le> 50 * real_of_int GRID_HEIGHT - 25 / 4"
    using assms(5) by (simp add: GRID_HEIGHT_def SCREEN_HEIGHT_def CELL_SIZE_def)
  have N: "0 < GRID_HEIGHT" "GRID_HEIGHT \<le> 2 ^ 16"
    by (simp_all add: GRID_HEIGHT_def SCREEN_HEIGHT_def CELL_SIZE_def)
  show ?thesis
    unfolding grid_cell_of_def query_ys_def Let_def snd_conv Vector2.simps
    by (rule axis_in_query [OF assms(1-4) hi assms(6) N])
qed

lemma found_in_stored:
  assumes "i < cnt" "ent i"
    and "pos i = \<lparr> vx = Fin qx, vy = Fin qy \<rparr>" "is_float (Fin qx)" "is_float (Fin qy)"
    and "sqrt ((px - qx)\<^sup>2 + (py - qy)\<^sup>2) \<le> r"
    and "\<bar>px\<bar> \<le> 2 ^ 30" "\<bar>py\<bar> \<le> 2 ^ 30" "r \<le> 2 ^ 30"
    and "0 \<le> px + r" "px - r \<le> real_of_int SCREEN_WIDTH"
    and "0 \<le> py + r" "py - r \<le> real_of_int SCREEN_HEIGHT"
    and "length (cell_members pos ent cnt (fst (grid_cell_of (pos i))) (snd (grid_cell_of (pos i))))
           \<le> MAX_ENTITIES_PER_CELL"
  shows "i \<in> set (stored (SpatialGridUpdateSystem grid pos ent cnt) \<lparr> vx = Fin px, vy = Fin py \<rparr> (Fin r))"
proof -
  have dx: "\<bar>px - qx\<bar> \<le> r"
    using abs_le_norm(1) [of "px - qx" "py - qy"] assms(6) by linarith
  have dy: "\<bar>py - qy\<bar> \<le> r"
    using abs_le_norm(2) [of "py - qy" "px - qx"] assms(6) by linarith
  have x: "fst (grid_cell_of (pos i)) \<in> set (query_xs \<lparr> vx = Fin px, vy = Fin py \<rparr> (Fin r))"
    unfolding assms(3) by (rule cell_in_query_xs [OF dx assms(7,9,10,11,4)])
  have y: "snd (grid_cell_of (pos i)) \<in> set (query_ys \<lparr> vx = Fin px, vy = Fin py \<rparr> (Fin r))"
    unfolding assms(3) by (rule cell_in_query_ys [OF dy assms(8,9,12,13,5)])
  have "i \<in> set (cell_members pos ent cnt (fst (grid_cell_of (pos i))) (snd (grid_cell_of (pos i))))"
    using assms(1,2) by (simp add: cell_members_def)
  then have "i \<in> set (cell_ids (cells (SpatialGridUpdateSystem grid pos ent cnt)
      (fst (grid_cell_of (pos i))) (snd (grid_cell_of (pos i)))))"
    using assms(14) by (simp add: cell_ids_SpatialGridUpdateSystem)
  with x y show ?thesis unfolding set_stored by blast
qed

text \<open>
  Claim C1, amended. After the grid rebuild, take a query with a finite centre \<open>(px, py)\<close> and
  a finite radius \<open>r\<close>, all of absolute value at most \<open>2 ^ 30\<close> (so that every conversion to
  \<^verbatim>\<open>int\<close> is in range), whose box \<open>[p - r, p + r]\<close> meets the world rectangle on both axes
  (every centre inside the world does). If no cell visited by the query was selected by more
  than \<open>MAX_ENTITIES_PER_CELL\<close> active agents and the result count stays below \<open>maxResults\<close>,
  then every active agent below \<open>count\<close> whose position (a pair of floats) is at exact
  Euclidean distance at most \<open>r\<close> from the centre is among the returned ids.
\<close>

theorem C1_query_superset:
  assumes "i < cnt" and "ent i"
    and "pos i = \<lparr> vx = Fin qx, vy = Fin qy \<rparr>" and "is_float (Fin qx)" and "is_float (Fin qy)"
    and "sqrt ((px - qx)\<^sup>2 + (py - qy)\<^sup>2) \<le> r"
    and "\<bar>px\<bar> \<le> 2 ^ 30" and "\<bar>py\<bar> \<le> 2 ^ 30" and "r \<le> 2 ^ 30"
    and "0 \<le> px + r" and "px - r \<le> real_of_int SCREEN_WIDTH"
    and "0 \<le> py + r" and "py - r \<le> real_of_int SCREEN_HEIGHT"
    and "\<forall>x \<in> set (query_xs \<lparr> vx = Fin px, vy = Fin py \<rparr> (Fin r)).
         \<forall>y \<in> set (query_ys \<lparr> vx = Fin px, vy = Fin py \<rparr> (Fin r)).
           length (cell_members pos ent cnt x y) \<le> MAX_ENTITIES_PER_CELL"
    and "int (length (QuerySpatialGrid (SpatialGridUpdateSystem grid pos ent cnt)
                        \<lparr> vx = Fin px, vy = Fin py \<rparr> (Fin r) m)) < m"
  shows "i \<in> set (QuerySpatialGrid (SpatialGridUpdateSystem grid pos ent cnt)
                     \<lparr> vx = Fin px, vy = Fin py \<rparr> (Fin r) m)"
proof -
  have dx: "\<bar>px - qx\<bar> \<le> r"
    using abs_le_norm(1) [of "px - qx" "py - qy"] assms(6) by linarith
  have dy: "\<bar>py - qy\<bar> \<le> r"
    using abs_le_norm(2) [of "py - qy" "px - qx"] assms(6) by linarith
  have x: "fst (grid_cell_of (pos i)) \<in> set (query_xs \<lparr> vx = Fin px, vy = Fin py \<rparr> (Fin r))"
    unfolding assms(3) by (rule cell_in_query_xs [OF dx assms(7,9,10,11,4)])
  have y: "snd (grid_cell_of (pos i)) \<in> set (query_ys \<lparr> vx = Fin px, vy = Fin py \<rparr> (Fin r))"
    unfolding assms(3) by (rule cell_in_query_ys [OF dy assms(8,9,12,13,5)])
  have cap: "length (cell_members pos ent cnt (fst (grid_cell_of (pos i))) (snd (grid_cell_of (pos i))))
      \<le> MAX_ENTITIES_PER_CELL"
    using assms(14) x y by blast
  have "i \<in> set (stored (SpatialGridUpdateSystem grid pos ent cnt) \<lparr> vx = Fin px, vy = Fin py \<rparr> (Fin r))"
    by (rule found_in_stored [OF assms(1-13) cap])
  then show ?thesis by (simp only: Query_not_full [OF assms(15)])
qed

section \<open>The clamp of Vector2Limit\<close>














section \<open>The integrator clamps the speed\<close>









section \<open>Sample runs on the grid\<close>

lemmas grid_consts = CELL_SIZE_def GRID_WIDTH_def GRID_HEIGHT_def SCREEN_WIDTH_def SCREEN_HEIGHT_def

lemma float_of_int_50 [simp]: "float_of_int 50 = Fin 50"
  by (simp add: float_of_int_def)

lemma cell_index:
  assumes "real_of_int n * 50 \<le> a" "a \<le> real_of_int n * 50 + 175 / 4" "0 \<le> n" "n < 2 ^ 20"
  shows "float_to_int (fquot (Fin a) (Fin 50)) = n"
proof -
  have lo: "real_of_int n \<le> a / 50" using assms(1) by simp
  have hi: "a / 50 \<le> real_of_int n + 7 / 8" using assms(2) by simp
  have n1: "\<bar>n\<bar> \<le> 2 ^ 24" and n2: "\<bar>8 * n + 7\<bar> < 2 ^ 24" using assms(3,4) by simp_all
  have q: "real_of_int n + 7 / 8 = real_of_int (8 * n + 7) / 2 ^ 3" by simp
  have e: "rounded (real_of_int n + 7 / 8) = real_of_int n + 7 / 8"
    unfolding q using n2 by (rule rounded_dyadic) simp
  have rl: "real_of_int n \<le> rounded (a / 50)" using lo rounded_int [OF n1] by (rule rounded_ge)
  have rh: "rounded (a / 50) \<le> real_of_int n + 7 / 8" using hi e by (rule rounded_le)
  have "real_of_int n < 2 ^ 20" using assms(4) by (simp add: of_int_less_numeral_power_cancel_iff)
  then have "\<bar>a / 50\<bar> \<le> 2 ^ 21" using lo hi assms(3) by (simp add: abs_le_iff)
  then have f: "rnd (a / 50) = Fin (rounded (a / 50))" by (rule rnd_bounded) simp
  have "float_to_int (Fin (rounded (a / 50))) = n"
    using rl _ assms(3) by (rule float_to_int_eq) (use rh assms(4) in simp_all)
  then show ?thesis by (simp add: f)
qed

lemma cell_samples:
  "float_to_int (fquot (Fin 0) (Fin 50)) = 0"
  "float_to_int (fquot (Fin 80) (Fin 50)) = 1"
  "float_to_int (fquot (Fin 90) (Fin 50)) = 1"
  "float_to_int (fquot (Fin 100) (Fin 50)) = 2"
  "float_to_int (fquot (Fin 101) (Fin 50)) = 2"
  "float_to_int (fquot (Fin 110) (Fin 50)) = 2"
  "float_to_int (fquot (Fin 120) (Fin 50)) = 2"
  "float_to_int (fquot (Fin 1000) (Fin 50)) = 20"
  "float_to_int (fquot (Fin 2990) (Fin 50)) = 59"
  "float_to_int (fquot (Fin 3000) (Fin 50)) = 60"
  "float_to_int (fquot (Fin 3010) (Fin 50)) = 60"
  by (rule cell_index; simp)+

lemma float_to_int_big: "2147483648 \<le> r \<Longrightarrow> float_to_int (Fin r) = - 2147483648"
  by (simp add: float_to_int_def)

lemma far_grid_cell: "grid_cell_of (far_pos i) = (51, 2)"
  by (simp add: far_pos_def grid_cell_of_def cell_samples grid_consts del: fquot.simps)

lemma far_grid_cell': "grid_cell_of \<lparr> vx = Fin 3000, vy = Fin 100 \<rparr> = (51, 2)"
  using far_grid_cell [of 0] by (simp add: far_pos_def)

lemma query_far: "query_xs \<lparr> vx = Fin 3000, vy = Fin 100 \<rparr> (Fin 10) = []"
  by (simp add: query_xs_def fsub_def cell_samples grid_consts del: fquot.simps)

lemma upt_2: "[0 ..< 2] = [0, Suc 0]"
  by (simp add: upt_conv_Cons)

lemma two_members:
  "cell_members two_pos two_ent 2 x y = (if x = 2 \<and> y = 2 then [0, Suc 0] else [])"
  by (simp add: cell_members_def upt_2 two_pos_def two_ent_def grid_cell_of_def cell_samples
        grid_consts del: fquot.simps)

lemma apart_members:
  "cell_members apart_pos two_ent 2 x y =
     (if x = 2 \<and> y = 2 then [0] else if x = 20 \<and> y = 20 then [Suc 0] else [])"
  by (simp add: cell_members_def upt_2 apart_pos_def two_ent_def grid_cell_of_def cell_samples
        grid_consts del: fquot.simps)

lemma crowd_cell: "grid_cell_of (crowd_pos i) = (2, 2)"
  by (simp add: crowd_pos_def grid_cell_of_def cell_samples grid_consts del: fquot.simps)

lemma crowd_members: "cell_members crowd_pos all_ent n 2 2 = [0 ..< n]"
  by (simp add: cell_members_def all_ent_def crowd_cell)

lemma query_100_100:
  "query_xs \<lparr> vx = Fin 100, vy = Fin 100 \<rparr> (Fin 10) = [1, 2]"
  "query_ys \<lparr> vx = Fin 100, vy = Fin 100 \<rparr> (Fin 10) = [1, 2]"
  "query_xs \<lparr> vx = Fin 100, vy = Fin 100 \<rparr> (Fin 20) = [1, 2]"
  "query_ys \<lparr> vx = Fin 100, vy = Fin 100 \<rparr> (Fin 20) = [1, 2]"
  by (simp_all add: query_xs_def query_ys_def fsub_def cell_samples grid_consts upto.simps
        del: fquot.simps)

text \<open>A query of radius \<open>2 ^ 40\<close>: the upper column index is out of the range of \<^verbatim>\<open>int\<close>.\<close>

lemma query_huge: "query_xs \<lparr> vx = Fin 100, vy = Fin 100 \<rparr> (Fin (2 ^ 40)) = []"
proof -
  define s where "s = rounded (100 + 2 ^ 40)"
  have "\<bar>100 + 2 ^ 40 :: real\<bar> \<le> 2 ^ 41" by simp
  from rnd_bounded [OF this] have f: "rnd (100 + 2 ^ 40) = Fin s" and su: "\<bar>s\<bar> \<le> 2 ^ 41"
    by (simp_all add: s_def)
  have sl: "2 ^ 40 \<le> s" unfolding s_def by (rule rounded_ge [OF _ rounded_pow]) simp
  have "\<bar>s / 50\<bar> \<le> 2 ^ 41" using su sl by (simp add: abs_le_iff)
  from rnd_bounded(1) [OF this] have g: "rnd (s / 50) = Fin (rounded (s / 50))" by simp
  have "(2::real) ^ 34 \<le> s / 50" using sl by simp
  then have "2 ^ 34 \<le> rounded (s / 50)" by (rule rounded_ge [OF _ rounded_pow])
  then have "2147483648 \<le> rounded (s / 50)" by simp
  then have h: "float_to_int (Fin (rounded (s / 50))) = - 2147483648" by (rule float_to_int_big)
  have H: "float_to_int (fquot (fadd (Fin 100) (Fin (2 ^ 40))) (float_of_int CELL_SIZE))
      = - 2147483648"
    unfolding CELL_SIZE_float fadd.simps f using g h by simp
  show ?thesis
    unfolding query_xs_def Let_def Vector2.simps H by (simp add: grid_consts)
qed

text \<open>
  Claim C1 as stated fails in two ways. (1) The cell range of the query can lie wholly beyond
  the grid: an active agent at (3000, 100) is stored by the rebuild in the clamped cell (51, 2),
  which then holds one id; the query centred on the very same point with radius 10 computes the
  columns 59 to 60, clamps only the upper one to 51, visits no cell and returns nothing,
  although the agent is at distance 0 and neither a cell nor the result buffer is full.
  (2) The conversion to \<^verbatim>\<open>int\<close> can be out of range: for the two agents at (100, 100) and
  (101, 100), the query centred on (100, 100) with radius \<open>2 ^ 40\<close> computes an upper column
  index beyond \<^verbatim>\<open>INT_MAX\<close>, which the conversion turns into \<^verbatim>\<open>INT_MIN\<close>; no cell is visited
  and nothing is returned, although both agents are within the radius.
\<close>

theorem C1_counterexample:
  "two_ent 0 \<and> far_pos 0 = \<lparr> vx = Fin 3000, vy = Fin 100 \<rparr>
   \<and> sqrt ((3000 - 3000)\<^sup>2 + (100 - 100)\<^sup>2) \<le> (10::real)
   \<and> cell_count (cells (SpatialGridUpdateSystem spatialGrid far_pos two_ent 1) 51 2) = 1
   \<and> cell_entities (cells (SpatialGridUpdateSystem spatialGrid far_pos two_ent 1) 51 2) 0 = 0
   \<and> QuerySpatialGrid (SpatialGridUpdateSystem spatialGrid far_pos two_ent 1)
        \<lparr> vx = Fin 3000, vy = Fin 100 \<rparr> (Fin 10) 900 = []
   \<and> two_ent 1 \<and> two_pos 1 = \<lparr> vx = Fin 101, vy = Fin 100 \<rparr>
   \<and> sqrt ((100 - 101)\<^sup>2 + (100 - 100)\<^sup>2) \<le> (2::real) ^ 40
   \<and> QuerySpatialGrid (SpatialGridUpdateSystem spatialGrid two_pos two_ent 2)
        \<lparr> vx = Fin 100, vy = Fin 100 \<rparr> (Fin (2 ^ 40)) 900 = []"
proof -
  have g: "SpatialGridUpdateSystem spatialGrid far_pos two_ent (Suc 0)
      = AddToSpatialGrid (ClearSpatialGrid spatialGrid) 0 (far_pos 0)"
    by (simp add: SpatialGridUpdateSystem_def two_ent_def)
  have h: "QuerySpatialGrid (SpatialGridUpdateSystem spatialGrid two_pos two_ent 2)
        \<lparr> vx = Fin 100, vy = Fin 100 \<rparr> (Fin (2 ^ 40)) 900 = []"
    unfolding QuerySpatialGrid_eq stored_def query_huge by simp
  have "two_ent 0 \<and> far_pos 0 = \<lparr> vx = Fin 3000, vy = Fin 100 \<rparr>
   \<and> sqrt ((3000 - 3000)\<^sup>2 + (100 - 100)\<^sup>2) \<le> (10::real)
   \<and> cell_count (cells (SpatialGridUpdateSystem spatialGrid far_pos two_ent 1) 51 2) = 1
   \<and> cell_entities (cells (SpatialGridUpdateSystem spatialGrid far_pos two_ent 1) 51 2) 0 = 0
   \<and> QuerySpatialGrid (SpatialGridUpdateSystem spatialGrid far_pos two_ent 1)
        \<lparr> vx = Fin 3000, vy = Fin 100 \<rparr> (Fin 10) 900 = []
   \<and> two_ent 1 \<and> two_pos 1 = \<lparr> vx = Fin 101, vy = Fin 100 \<rparr>
   \<and> sqrt ((100 - 101)\<^sup>2 + (100 - 100)\<^sup>2) \<le> (2::real) ^ 40"
    by (simp add: two_ent_def two_pos_def QuerySpatialGrid_eq stored_def query_far g
          AddToSpatialGrid_eq far_grid_cell' ClearSpatialGrid_def MAX_ENTITIES_PER_CELL_def
          far_pos_def)
  with h show ?thesis by (simp only: simp_thms)
qed

theorem C10_grid_rebuild_witness:
  "cell_count (cells (SpatialGridUpdateSystem spatialGrid two_pos two_ent 2) 2 2) = 2
   \<and> cell_entities (cells (SpatialGridUpdateSystem spatialGrid two_pos two_ent 2) 2 2) 1 < 2
   \<and> two_ent (cell_entities (cells (SpatialGridUpdateSystem spatialGrid two_pos two_ent 2) 2 2) 1)
   \<and> grid_cell_of (two_pos
        (cell_entities (cells (SpatialGridUpdateSystem spatialGrid two_pos two_ent 2) 2 2) 1)) = (2, 2)"
proof -
  let ?G = "SpatialGridUpdateSystem spatialGrid two_pos two_ent 2"
  have "length (cell_ids (cells ?G 2 2)) = 2"
    by (simp add: cell_ids_SpatialGridUpdateSystem two_members MAX_ENTITIES_PER_CELL_def)
  then have cnt: "cell_count (cells ?G 2 2) = 2" by simp
  then have k: "1 < cell_count (cells ?G 2 2)" by simp
  from C10_grid_rebuild [of spatialGrid two_pos two_ent 2 "\<lparr> vx = Fin 100, vy = Fin 100 \<rparr>" "Fin 10" 900,
      unfolded Let_def, THEN conjunct1, rule_format, OF k]
  show ?thesis using cnt by simp
qed

lemma is_float_int: "\<bar>n\<bar> \<le> 2 ^ 24 \<Longrightarrow> is_float (Fin (real_of_int n))"
  by (simp add: is_float_def rnd_int)

lemma is_float_numeral [simp]:
  "numeral w \<le> (16777216::int) \<Longrightarrow> is_float (Fin (numeral w))"
  using is_float_int [of "numeral w"] by simp

lemma is_float_0_1 [simp]: "is_float (Fin 0)" "is_float (Fin 1)" "is_float (Fin (- 1))"
  by (simp_all add: is_float_def)

theorem C1_query_superset_witness:
  "two_ent 1
   \<and> two_pos 1 = \<lparr> vx = Fin 101, vy = Fin 100 \<rparr> \<and> is_float (Fin 101) \<and> is_float (Fin 100)
   \<and> sqrt ((100 - 101)\<^sup>2 + (100 - 100)\<^sup>2) \<le> (10::real)
   \<and> int (length (QuerySpatialGrid (SpatialGridUpdateSystem spatialGrid two_pos two_ent 2)
                    \<lparr> vx = Fin 100, vy = Fin 100 \<rparr> (Fin 10) 900)) < 900
   \<and> 1 \<in> set (QuerySpatialGrid (SpatialGridUpdateSystem spatialGrid two_pos two_ent 2)
                 \<lparr> vx = Fin 100, vy = Fin 100 \<rparr> (Fin 10) 900)"
proof -
  let ?p = "\<lparr> vx = Fin 100, vy = Fin 100 \<rparr>"
  let ?G = "SpatialGridUpdateSystem spatialGrid two_pos two_ent 2"
  have i: "(1::nat) < 2" by simp
  have e: "two_ent 1" by (simp add: two_ent_def)
  have q: "two_pos 1 = \<lparr> vx = Fin 101, vy = Fin 100 \<rparr>" by (simp add: two_pos_def)
  have f: "is_float (Fin 101)" "is_float (Fin 100)" by simp_all
  have d: "sqrt ((100 - 101)\<^sup>2 + (100 - 100)\<^sup>2) \<le> (10::real)" by simp
  have b: "\<bar>100::real\<bar> \<le> 2 ^ 30" "(10::real) \<le> 2 ^ 30"
    "(0::real) \<le> 100 + 10" "(100::real) - 10 \<le> real_of_int SCREEN_WIDTH"
    "(100::real) - 10 \<le> real_of_int SCREEN_HEIGHT"
    by (simp_all add: grid_consts)
  have cap: "\<forall>x \<in> set (query_xs ?p (Fin 10)). \<forall>y \<in> set (query_ys ?p (Fin 10)).
      length (cell_members two_pos two_ent 2 x y) \<le> MAX_ENTITIES_PER_CELL"
    by (simp add: two_members MAX_ENTITIES_PER_CELL_def)
  have len: "int (length (QuerySpatialGrid ?G ?p (Fin 10) 900)) < 900"
    using length_stored_le [of spatialGrid two_pos two_ent 2 ?p "Fin 10"]
    by (simp add: Query_rebuild)
  from C1_query_superset [OF i e q f d b(1) b(1) b(2) b(3) b(4) b(3) b(5) cap len]
  show ?thesis using e q f d len by simp
qed

theorem C8_full_cell_witness:
  "MAX_ENTITIES_PER_CELL \<le> cell_count (cells (SpatialGridUpdateSystem spatialGrid crowd_pos all_ent 100)
       (fst (grid_cell_of (crowd_pos 100))) (snd (grid_cell_of (crowd_pos 100))))
   \<and> AddToSpatialGrid (SpatialGridUpdateSystem spatialGrid crowd_pos all_ent 100) 100 (crowd_pos 100)
       = SpatialGridUpdateSystem spatialGrid crowd_pos all_ent 100
   \<and> all_ent 100
   \<and> 100 \<notin> set (QuerySpatialGrid (SpatialGridUpdateSystem spatialGrid crowd_pos all_ent 101)
                   \<lparr> vx = Fin 100, vy = Fin 100 \<rparr> (Fin 10) 900)"
proof -
  let ?G = "SpatialGridUpdateSystem spatialGrid crowd_pos all_ent 100"
  have "length (cell_ids (cells ?G 2 2)) = 100"
    by (simp add: cell_ids_SpatialGridUpdateSystem crowd_members MAX_ENTITIES_PER_CELL_def)
  then have full: "MAX_ENTITIES_PER_CELL \<le> cell_count (cells ?G
      (fst (grid_cell_of (crowd_pos 100))) (snd (grid_cell_of (crowd_pos 100))))"
    by (simp add: crowd_cell MAX_ENTITIES_PER_CELL_def)
  have e: "all_ent 100" by (simp add: all_ent_def)
  have i: "(100::nat) < 101" by simp
  from C8_full_cell [of ?G "crowd_pos 100" 100 100 101 all_ent crowd_pos, THEN conjunct1, THEN mp, OF full]
  have a: "AddToSpatialGrid ?G 100 (crowd_pos 100) = ?G" .
  from C8_full_cell [of spatialGrid "crowd_pos 100" 100 100 101 all_ent crowd_pos,
      THEN conjunct2, THEN mp, OF conjI [OF i conjI [OF e full]]]
  have "100 \<notin> set (QuerySpatialGrid (SpatialGridUpdateSystem spatialGrid crowd_pos all_ent 101)
       \<lparr> vx = Fin 100, vy = Fin 100 \<rparr> (Fin 10) 900)" by blast
  with full a e show ?thesis by blast
qed

lemma boidParams_simps:
  "perceptionRadius boidParams = Fin 20" "separationRadius boidParams = Fin 10"
  "maxSpeed boidParams = Fin 5" "maxForce boidParams = rnd (7 / 10)"
  "separationWeight boidParams = Fin 3" "alignmentWeight boidParams = Fin 1"
  "cohesionWeight boidParams = Fin (1 / 2)"
  by (simp_all add: boidParams_def)

theorem C6_zero_neighbors_witness:
  "qualifying (SpatialGridUpdateSystem spatialGrid apart_pos two_ent 2) apart_pos two_ent 0
       (separationRadius boidParams) = []
   \<and> qualifying (SpatialGridUpdateSystem spatialGrid apart_pos two_ent 2) apart_pos two_ent 0
       (perceptionRadius boidParams) = []
   \<and> (\<exists>acc'. BoidSeparationSystem (SpatialGridUpdateSystem spatialGrid apart_pos two_ent 2)
                 apart_pos zero_vecs fast_vecs two_ent 2 boidParams = Some acc'
              \<and> acc' 0 = \<lparr> vx = Fin 6, vy = Fin 8 \<rparr>)
   \<and> (\<exists>acc'. BoidAlignmentSystem (SpatialGridUpdateSystem spatialGrid apart_pos two_ent 2)
                 apart_pos zero_vecs fast_vecs two_ent 2 boidParams = Some acc'
              \<and> acc' 0 = \<lparr> vx = Fin 6, vy = Fin 8 \<rparr>)
   \<and> (\<exists>acc'. BoidCohesionSystem (SpatialGridUpdateSystem spatialGrid apart_pos two_ent 2)
                 apart_pos zero_vecs fast_vecs two_ent 2 boidParams = Some acc'
              \<and> acc' 0 = \<lparr> vx = Fin 6, vy = Fin 8 \<rparr>)"
proof -
  let ?G = "SpatialGridUpdateSystem spatialGrid apart_pos two_ent 2"
  have p: "apart_pos 0 = \<lparr> vx = Fin 100, vy = Fin 100 \<rparr>" by (simp add: apart_pos_def)
  have s: "stored ?G \<lparr> vx = Fin 100, vy = Fin 100 \<rparr> (Fin 10) = [0]"
    "stored ?G \<lparr> vx = Fin 100, vy = Fin 100 \<rparr> (Fin 20) = [0]"
    by (simp_all add: stored_def query_100_100 cell_ids_SpatialGridUpdateSystem apart_members
          MAX_ENTITIES_PER_CELL_def)
  have Q: "QuerySpatialGrid ?G \<lparr> vx = Fin 100, vy = Fin 100 \<rparr> r (int (MAX_ENTITIES_PER_CELL * 9))
      = stored ?G \<lparr> vx = Fin 100, vy = Fin 100 \<rparr> r" for r
    by (rule Query_rebuild) (simp add: MAX_ENTITIES_PER_CELL_def)
  have q1: "qualifying ?G apart_pos two_ent 0 (separationRadius boidParams) = []"
    unfolding qualifying_def boidParams_simps p Q s by simp
  have q2: "qualifying ?G apart_pos two_ent 0 (perceptionRadius boidParams) = []"
    unfolding qualifying_def boidParams_simps p Q s by simp
  from C6_zero_neighbors [of ?G apart_pos two_ent 0 boidParams zero_vecs fast_vecs 2]
  show ?thesis using q1 q2 by (simp add: fast_vecs_def)
qed

theorem C7_CreateEntity_witness:
  "entityCount empty_store < MAX_ENTITIES
   \<and> fst (CreateEntity empty_store \<lparr> vx = Fin 100, vy = Fin 100 \<rparr> \<lparr> vx = Fin 1, vy = Fin 0 \<rparr> blue) = 0
   \<and> entityCount (snd (CreateEntity empty_store \<lparr> vx = Fin 100, vy = Fin 100 \<rparr> \<lparr> vx = Fin 1, vy = Fin 0 \<rparr> blue)) = 1
   \<and> entities (snd (CreateEntity empty_store \<lparr> vx = Fin 100, vy = Fin 100 \<rparr> \<lparr> vx = Fin 1, vy = Fin 0 \<rparr> blue)) 0
   \<and> positions (snd (CreateEntity empty_store \<lparr> vx = Fin 100, vy = Fin 100 \<rparr> \<lparr> vx = Fin 1, vy = Fin 0 \<rparr> blue)) 0
        = \<lparr> vx = Fin 100, vy = Fin 100 \<rparr>
   \<and> velocities (snd (CreateEntity empty_store \<lparr> vx = Fin 100, vy = Fin 100 \<rparr> \<lparr> vx = Fin 1, vy = Fin 0 \<rparr> blue)) 0
        = \<lparr> vx = Fin 1, vy = Fin 0 \<rparr>
   \<and> accelerations (snd (CreateEntity empty_store \<lparr> vx = Fin 100, vy = Fin 100 \<rparr> \<lparr> vx = Fin 1, vy = Fin 0 \<rparr> blue)) 0
        = \<lparr> vx = Fin 0, vy = Fin 0 \<rparr>
   \<and> colors (snd (CreateEntity empty_store \<lparr> vx = Fin 100, vy = Fin 100 \<rparr> \<lparr> vx = Fin 1, vy = Fin 0 \<rparr> blue)) 0 = blue
   \<and> MAX_ENTITIES \<le> entityCount full_store
   \<and> CreateEntity full_store \<lparr> vx = Fin 100, vy = Fin 100 \<rparr> \<lparr> vx = Fin 1, vy = Fin 0 \<rparr> blue = (- 1, full_store)"
  using C7_CreateEntity [of empty_store "\<lparr> vx = Fin 100, vy = Fin 100 \<rparr>" "\<lparr> vx = Fin 1, vy = Fin 0 \<rparr>" blue]
    C7_CreateEntity [of full_store "\<lparr> vx = Fin 100, vy = Fin 100 \<rparr>" "\<lparr> vx = Fin 1, vy = Fin 0 \<rparr>" blue]
  by (simp add: empty_store_def full_store_def MAX_ENTITIES_def)

end
